theory Spec2Isabelle
  imports Main "HOL-Library.Word" "HOL-Library.Sublist"
begin

section \<open>Text output helpers\<close>

text \<open>
  The logger writes integers through \<^verbatim>\<open>operator<<\<close> and \<^verbatim>\<open>std::to_string\<close>: the
  decimal digits of the value, with a leading minus sign for a negative one.
\<close>

definition digit_char :: "nat \<Rightarrow> char" where
  "digit_char d = ''0123456789'' ! d"

function digits10 :: "nat \<Rightarrow> string" where
  "digits10 n = (if n < 10 then [digit_char n] else digits10 (n div 10) @ [digit_char (n mod 10)])"
  by pat_completeness auto
termination
  by (relation "measure id") auto

declare digits10.simps [simp del]

definition show_int :: "int \<Rightarrow> string" where
  "show_int i = (if i < 0 then CHR ''-'' # digits10 (nat (- i)) else digits10 (nat i))"

text \<open>
  \<^verbatim>\<open>out << std::setw(w) << std::setfill('0') << n\<close>: the text of \<open>n\<close>, filled on the left
  with the fill character up to the field width. The width applies to this one insertion
  (the stream resets it to zero afterwards), so the characters and the date that
  \<^verbatim>\<open>format_time\<close> inserts elsewhere are never padded.
\<close>

definition setw_setfill :: "nat \<Rightarrow> char \<Rightarrow> string \<Rightarrow> string" where
  "setw_setfill w c s = replicate (w - length s) c @ s"

section \<open>The time formatter\<close>

text \<open>
  What \<^verbatim>\<open>format_time\<close> reads from the clock on entry: the broken-down local time
  (\<^verbatim>\<open>struct tm\<close>, of which the fields below are used) and the milliseconds within the
  current second (\<^verbatim>\<open>ms.count()\<close>).
\<close>

record time_reading =
  tm_sec :: int
  tm_min :: int
  tm_hour :: int
  tm_mday :: int
  tm_mon :: int
  tm_year :: int
  ms_count :: int

text \<open>
  \<^verbatim>\<open>std::put_time(&tm, "%Y-%m-%d")\<close>: the year (\<open>tm_year\<close> counts from 1900), the month
  (\<open>tm_mon\<close> counts from 0) and the day of the month, the last two as two digits.
\<close>

definition put_time_Ymd :: "time_reading \<Rightarrow> string" where
  "put_time_Ymd t =
     show_int (1900 + tm_year t) @ ''-'' @
     setw_setfill 2 CHR ''0'' (show_int (tm_mon t + 1)) @ ''-'' @
     setw_setfill 2 CHR ''0'' (show_int (tm_mday t))"

text \<open>
  One iteration of the \<^verbatim>\<open>while (!p_fmt.empty())\<close> loop, entered with a non-empty \<open>p_fmt\<close>:
  the pair of the remaining format and the output stream's text after the iteration.
  \<^verbatim>\<open>p_fmt.substr(0, n)\<close> is \<open>take n p_fmt\<close> (the count is clamped to the length) and
  \<^verbatim>\<open>p_fmt.remove_prefix(n)\<close> is \<open>drop n p_fmt\<close>.
\<close>

definition format_time_step :: "time_reading \<Rightarrow> string \<Rightarrow> string \<Rightarrow> string \<times> string" where
  "format_time_step t p_fmt out =
     (if hd p_fmt = CHR ''%'' \<and> length p_fmt \<ge> 2 then
        if take 3 p_fmt = ''%MS'' then
          (drop 3 p_fmt, out @ setw_setfill 3 CHR ''0'' (show_int (ms_count t)))
        else if take 2 p_fmt = ''%S'' then
          (drop 2 p_fmt, out @ setw_setfill 2 CHR ''0'' (show_int (tm_sec t)))
        else if take 2 p_fmt = ''%M'' then
          (drop 2 p_fmt, out @ setw_setfill 2 CHR ''0'' (show_int (tm_min t)))
        else if take 2 p_fmt = ''%H'' then
          (drop 2 p_fmt, out @ setw_setfill 2 CHR ''0'' (show_int (tm_hour t)))
        else if take 2 p_fmt = ''%D'' then
          (drop 2 p_fmt, out @ put_time_Ymd t)
        else
          (drop 1 p_fmt, out @ [hd p_fmt])
      else
        (drop 1 p_fmt, out @ [hd p_fmt]))"

text \<open>
  The loop itself. Whether it ever leaves is part of what is verified, so the model does
  not assume it: a run that never ends is the value \<open>None\<close>.
\<close>

partial_function (option) format_time_loop :: "time_reading \<Rightarrow> string \<Rightarrow> string \<Rightarrow> string option" where
  "format_time_loop t p_fmt out =
     (if p_fmt = [] then Some out
      else format_time_loop t (fst (format_time_step t p_fmt out)) (snd (format_time_step t p_fmt out)))"

declare format_time_loop.simps [code]

definition format_time :: "time_reading \<Rightarrow> string \<Rightarrow> string option" where
  "format_time t p_fmt = format_time_loop t p_fmt []"

text \<open>
  The renderer as the specification words it: a left-to-right scan, the three-character
  token \<open>%MS\<close> tried before the two-character ones, every other character copied.
\<close>

function spec_render :: "time_reading \<Rightarrow> string \<Rightarrow> string" where
  "spec_render t s =
     (if s = [] then []
      else if prefix ''%MS'' s then
        setw_setfill 3 CHR ''0'' (show_int (ms_count t)) @ spec_render t (drop 3 s)
      else if prefix ''%S'' s then
        setw_setfill 2 CHR ''0'' (show_int (tm_sec t)) @ spec_render t (drop 2 s)
      else if prefix ''%M'' s then
        setw_setfill 2 CHR ''0'' (show_int (tm_min t)) @ spec_render t (drop 2 s)
      else if prefix ''%H'' s then
        setw_setfill 2 CHR ''0'' (show_int (tm_hour t)) @ spec_render t (drop 2 s)
      else if prefix ''%D'' s then
        put_time_Ymd t @ spec_render t (drop 2 s)
      else hd s # spec_render t (tl s))"
  by pat_completeness auto
termination
  by (relation "measure (\<lambda>(t, s). length s)") auto

declare spec_render.simps [simp del]

section \<open>Severity levels\<close>

text \<open>
  \<^verbatim>\<open>enum LogLevel : uint8_t\<close>. The last enumerator (\<^verbatim>\<open>__LOG_LEVEL_AMOUNT\<close> in the source)
  counts the levels; it is a value of the type all the same, so a threshold can hold it.
\<close>

datatype LogLevel = DEBUG | INFO | WARN | ERROR | LOG_LEVEL_AMOUNT

fun level_value :: "LogLevel \<Rightarrow> nat" where
  "level_value DEBUG = 0"
| "level_value INFO = 1"
| "level_value WARN = 2"
| "level_value ERROR = 3"
| "level_value LOG_LEVEL_AMOUNT = 4"

section \<open>Exceptions\<close>

datatype exception = format_error | out_of_range

section \<open>The string operations of the function-name extraction\<close>

text \<open>
  \<^verbatim>\<open>std::string::npos\<close> is the largest \<^verbatim>\<open>size_t\<close>; \<^verbatim>\<open>find\<close> and \<^verbatim>\<open>find_first_of\<close> with a
  single character return the index of its first occurrence, or \<open>npos\<close>.
\<close>

definition npos :: "64 word" where
  "npos = - 1"

definition find_char :: "string \<Rightarrow> char \<Rightarrow> 64 word" where
  "find_char s c =
     (if c \<in> set s then of_nat (length (takeWhile (\<lambda>x. x \<noteq> c) s)) else npos)"

text \<open>
  \<^verbatim>\<open>s.substr(pos, n)\<close> throws \<^verbatim>\<open>std::out_of_range\<close> when \<open>pos\<close> is beyond the size, and
  clamps the count to what is left.
\<close>

definition substr :: "string \<Rightarrow> 64 word \<Rightarrow> 64 word \<Rightarrow> exception + string" where
  "substr s pos n =
     (if length s < unat pos then Inl out_of_range else Inr (take (unat n) (drop (unat pos) s)))"

text \<open>
  Lines 115 and 116 of \<^verbatim>\<open>Logger::log\<close>:
  \<^verbatim>\<open>function = function.substr(function.find_first_of(' ') + 1);\<close>
  \<^verbatim>\<open>function = function.substr(0, function.find('('));\<close>
  The addition is \<^verbatim>\<open>size_t\<close> arithmetic: \<open>npos + 1\<close> wraps to 0.
\<close>

definition extract_function_name :: "string \<Rightarrow> exception + string" where
  "extract_function_name function =
     (case substr function (find_char function CHR '' '' + 1) npos of
        Inl e \<Rightarrow> Inl e
      | Inr function' \<Rightarrow> substr function' 0 (find_char function' CHR ''(''))"

text \<open>
  The extraction as the specification words it: drop everything through the first space
  (keep the text whole when it has none), then cut at the first opening parenthesis.
\<close>

definition strip_through_first_space :: "string \<Rightarrow> string" where
  "strip_through_first_space s =
     (if CHR '' '' \<in> set s then tl (dropWhile (\<lambda>x. x \<noteq> CHR '' '') s) else s)"

definition truncate_at_paren :: "string \<Rightarrow> string" where
  "truncate_at_paren s = takeWhile (\<lambda>x. x \<noteq> CHR ''('') s"

section \<open>The standard formatting function\<close>

text \<open>
  \<^verbatim>\<open>std::vformat\<close> belongs to the C++ standard library, not to the repository. It is modelled
  after the standard's grammar of format strings: text is copied, \<^verbatim>\<open>{{\<close> and \<^verbatim>\<open>}}\<close> stand
  for one brace, and a replacement field \<^verbatim>\<open>{\<close>\<open>arg-id\<close>\<^verbatim>\<open>:\<close>\<open>format-spec\<close>\<^verbatim>\<open>}\<close> (both parts
  optional) is replaced by the argument it names. Every violation throws
  \<^verbatim>\<open>std::format_error\<close>, here the value \<open>None\<close> of the scanner.

  Arguments are the values a caller hands to \<^verbatim>\<open>log\<close>; strings and integers are modelled.
\<close>

datatype fmt_arg = ArgString string | ArgInt int

fun default_format :: "fmt_arg \<Rightarrow> string" where
  "default_format (ArgString s) = s"
| "default_format (ArgInt i) = show_int i"

text \<open>
  The parse context's bookkeeping of argument numbering: a format string uses automatic
  numbering (\<^verbatim>\<open>{}\<close>, counting up) or explicit numbers (\<^verbatim>\<open>{0}\<close>), never both.
\<close>

datatype indexing = Unknown | Manual | Automatic nat

fun next_arg_id :: "indexing \<Rightarrow> (nat \<times> indexing) option" where
  "next_arg_id Unknown = Some (0, Automatic 1)"
| "next_arg_id (Automatic n) = Some (n, Automatic (Suc n))"
| "next_arg_id Manual = None"

fun check_arg_id :: "indexing \<Rightarrow> indexing option" where
  "check_arg_id (Automatic n) = None"
| "check_arg_id _ = Some Manual"

text \<open>
  How an argument is rendered under a non-empty format-spec (fill, alignment, width,
  precision, presentation type) is the business of the standard formatter of the
  argument's type. That part of the library is not modelled; it is a parameter: given all
  arguments and the numbering state (a spec may hold nested fields for width and
  precision), the spec's text and the argument, it yields the rendered text and the new
  numbering state, or \<open>None\<close> when it throws \<^verbatim>\<open>std::format_error\<close> (a spec that does not
  fit the argument's type, for one).
\<close>

type_synonym std_formatter =
  "fmt_arg list \<Rightarrow> indexing \<Rightarrow> string \<Rightarrow> fmt_arg \<Rightarrow> (string \<times> indexing) option"

definition is_digit :: "char \<Rightarrow> bool" where
  "is_digit c = (c \<in> set ''0123456789'')"

definition digit_value :: "char \<Rightarrow> nat" where
  "digit_value c = length (takeWhile (\<lambda>x. x \<noteq> c) ''0123456789'')"

definition parse_nat :: "string \<Rightarrow> nat" where
  "parse_nat ds = foldl (\<lambda>n c. 10 * n + digit_value c) 0 ds"

text \<open>
  The arg-id of a replacement field, read from the text after the opening brace: none
  (automatic numbering), \<open>0\<close>, or a number without a leading zero. The result is the
  argument's index, the new numbering state and the text after the arg-id.
\<close>

definition parse_arg_id :: "indexing \<Rightarrow> string \<Rightarrow> (nat \<times> indexing \<times> string) option" where
  "parse_arg_id ix r =
     (let ds = takeWhile is_digit r; r1 = dropWhile is_digit r in
      if ds = [] then map_option (\<lambda>(i, ix1). (i, ix1, r1)) (next_arg_id ix)
      else if hd ds = CHR ''0'' \<and> tl ds \<noteq> [] then None
      else map_option (\<lambda>ix1. (parse_nat ds, ix1, r1)) (check_arg_id ix))"

text \<open>
  The end of a format-spec: the position of the first closing brace that is not inside a
  nested replacement field.
\<close>

fun spec_close :: "nat \<Rightarrow> string \<Rightarrow> nat option" where
  "spec_close d [] = None"
| "spec_close d (c # r) =
     (if c = CHR ''}'' then (if d = 0 then Some 0 else map_option Suc (spec_close (d - 1) r))
      else if c = CHR ''{'' then map_option Suc (spec_close (Suc d) r)
      else map_option Suc (spec_close d r))"

text \<open>
  One replacement field, read from the text after its opening brace: the text it is
  replaced by, the new numbering state and the text after its closing brace.
\<close>

definition replacement_field ::
  "std_formatter \<Rightarrow> fmt_arg list \<Rightarrow> indexing \<Rightarrow> string \<Rightarrow> (string \<times> indexing \<times> string) option" where
  "replacement_field F args ix r =
     (case parse_arg_id ix r of
        None \<Rightarrow> None
      | Some (i, ix1, r1) \<Rightarrow>
          if length args \<le> i then None
          else if r1 = [] then None
          else if hd r1 = CHR ''}'' then Some (default_format (args ! i), ix1, tl r1)
          else if hd r1 = CHR '':'' then
            (case spec_close 0 (tl r1) of
               None \<Rightarrow> None
             | Some k \<Rightarrow>
                 if k = 0 then Some (default_format (args ! i), ix1, drop (Suc k) (tl r1))
                 else
                   (case F args ix1 (take k (tl r1)) (args ! i) of
                      None \<Rightarrow> None
                    | Some (out, ix2) \<Rightarrow> Some (out, ix2, drop (Suc k) (tl r1))))
          else None)"

lemma parse_arg_id_length:
  "parse_arg_id ix r = Some (i, ix1, r1) \<Longrightarrow> length r1 \<le> length r"
  by (auto simp: parse_arg_id_def Let_def length_dropWhile_le split: if_splits)

lemma replacement_field_length:
  assumes "replacement_field F args ix r = Some (out, ix', rest)"
  shows "length rest \<le> length r"
proof -
  obtain i ix1 r1 where p: "parse_arg_id ix r = Some (i, ix1, r1)"
    using assms by (auto simp: replacement_field_def split: option.splits)
  have "length rest \<le> length r1"
    using assms p
    by (auto simp: replacement_field_def split: option.splits if_splits)
  with parse_arg_id_length[OF p] show ?thesis by simp
qed

text \<open>The scan of a format string, left to right.\<close>

function vformat_scan ::
  "std_formatter \<Rightarrow> fmt_arg list \<Rightarrow> indexing \<Rightarrow> string \<Rightarrow> (string \<times> indexing) option" where
  "vformat_scan F args ix [] = Some ([], ix)"
| "vformat_scan F args ix (c # r) =
     (if c = CHR ''{'' then
        if r \<noteq> [] \<and> hd r = CHR ''{'' then
          map_option (\<lambda>(out, ix'). (CHR ''{'' # out, ix')) (vformat_scan F args ix (tl r))
        else
          (case replacement_field F args ix r of
             None \<Rightarrow> None
           | Some (out1, ix1, rest) \<Rightarrow>
               map_option (\<lambda>(out, ix'). (out1 @ out, ix')) (vformat_scan F args ix1 rest))
      else if c = CHR ''}'' then
        if r \<noteq> [] \<and> hd r = CHR ''}'' then
          map_option (\<lambda>(out, ix'). (CHR ''}'' # out, ix')) (vformat_scan F args ix (tl r))
        else None
      else map_option (\<lambda>(out, ix'). (c # out, ix')) (vformat_scan F args ix r))"
  by pat_completeness auto
termination
proof (relation "measure (\<lambda>(F, args, ix, s). length s)")
  fix F :: std_formatter and args ix c r x2 out1 y ix1 rest
  assume "replacement_field F args ix r = Some x2" "(out1, y) = x2" "(ix1, rest) = y"
  then have "replacement_field F args ix r = Some (out1, ix1, rest)" by simp
  from replacement_field_length[OF this]
  show "((F, args, ix1, rest), F, args, ix, c # r) \<in> measure (\<lambda>(F, args, ix, s). length s)"
    by simp
qed auto

definition vformat :: "std_formatter \<Rightarrow> string \<Rightarrow> fmt_arg list \<Rightarrow> exception + string" where
  "vformat F p_fmt p_args =
     (case vformat_scan F p_args Unknown p_fmt of
        None \<Rightarrow> Inl format_error
      | Some (out, ix) \<Rightarrow> Inr out)"

section \<open>The logger's state\<close>

record Logger =
  m_threshold_level :: LogLevel
  m_time_format :: string
  m_log_format :: string
  m_coloured :: bool
  m_ask_continue :: bool
  m_abort_on_err :: bool

text \<open>
  The constructor (\<^verbatim>\<open>cci_logger.cc\<close>, lines 66 to 72). \<open>m_log_format\<close> is not in the
  initialiser list: it is default-constructed, the empty string.
\<close>

definition new_Logger :: "LogLevel \<Rightarrow> Logger" where
  "new_Logger p_loglevel =
     \<lparr>m_threshold_level = p_loglevel,
      m_time_format = ''%M:%S.%MS'',
      m_log_format = [],
      m_coloured = True,
      m_ask_continue = True,
      m_abort_on_err = True\<rparr>"

text \<open>The mutators, and the default arguments their declarations in the header give.\<close>

definition set_time_format :: "string \<Rightarrow> Logger \<Rightarrow> Logger" where
  "set_time_format p_fmt lg = lg\<lparr>m_time_format := p_fmt\<rparr>"

definition set_time_format_default_arg :: string where
  "set_time_format_default_arg = ''%MS.%S:%M''"

definition set_log_format :: "string \<Rightarrow> Logger \<Rightarrow> Logger" where
  "set_log_format p_fmt lg = lg\<lparr>m_log_format := p_fmt\<rparr>"

text \<open>\<^verbatim>\<open>set_log_format(void)\<close>, the overload without an argument.\<close>

definition clear_log_format :: "Logger \<Rightarrow> Logger" where
  "clear_log_format lg = lg\<lparr>m_log_format := []\<rparr>"

definition abort_on_error :: "bool \<Rightarrow> Logger \<Rightarrow> Logger" where
  "abort_on_error p_abort lg = lg\<lparr>m_abort_on_err := p_abort\<rparr>"

definition ask_continue_on_error :: "bool \<Rightarrow> Logger \<Rightarrow> Logger" where
  "ask_continue_on_error p_ask lg = lg\<lparr>m_ask_continue := p_ask\<rparr>"

definition set_coloured_log :: "bool \<Rightarrow> Logger \<Rightarrow> Logger" where
  "set_coloured_log p_coloured lg = lg\<lparr>m_coloured := p_coloured\<rparr>"

text \<open>The static tables: per level the coloured and the plain label, and the two built-in
  line formats. \<open>ESC\<close> is the byte \<^verbatim>\<open>\033\<close>, \<open>NL\<close> the newline.\<close>

definition ESC :: char where
  "ESC = CHR 0x1B"

definition NL :: char where
  "NL = CHR 0x0A"

definition m_LOG_LABELS :: "(string \<times> string) list" where
  "m_LOG_LABELS =
     [(ESC # ''[1;36mdebug'' @ ESC # ''[0;0;0m'', ''debug''),
      (ESC # ''[1;32minfo'' @ ESC # ''[0;0;0m'', ''info''),
      (ESC # ''[1;33mwarn'' @ ESC # ''[0;0;0m'', ''warn''),
      (ESC # ''[1;31merror'' @ ESC # ''[0;0;0m'', ''error'')]"

definition m_LOG_FORMATS :: "string \<times> string" where
  "m_LOG_FORMATS =
     (''[{0} {1} at '' @ ESC # ''[1m{2}'' @ ESC # ''[0m( '' @ ESC # ''[1;30m{3}:{4}'' @
        ESC # ''[0;0m )]: '' @ ESC # ''[1m{5}'' @ ESC # ''[0m'' @ [NL],
      ''[{0} {1} at {2}( {3}:{4} )]: {5}'' @ [NL])"

section \<open>The world around the logger\<close>

text \<open>
  What a call of \<^verbatim>\<open>log\<close> reads and writes outside the logger: the clock, whether standard
  input is a terminal (\<^verbatim>\<open>isatty(fileno(stdin))\<close>), \<^verbatim>\<open>std::cin\<close> (the bytes not yet read,
  after which comes the end of input, and the stream's \<^verbatim>\<open>eofbit\<close> and \<^verbatim>\<open>failbit\<close>), and
  the text written so far to \<^verbatim>\<open>std::cerr\<close> and \<^verbatim>\<open>std::clog\<close>.
\<close>

record world =
  clock :: time_reading
  stdin_isatty :: bool
  cin_buf :: string
  cin_eofbit :: bool
  cin_failbit :: bool
  cerr :: string
  clog :: string

definition is_stdin_available :: "world \<Rightarrow> bool" where
  "is_stdin_available w = stdin_isatty w"

text \<open>
  \<^verbatim>\<open>std::getline(std::cin, line)\<close>, as the standard has it: when the stream is not good on
  entry, only \<^verbatim>\<open>failbit\<close> is set and the string is left as it was. Otherwise the string is
  erased and characters are moved into it up to a newline, which is taken off the input
  and dropped; running into the end of the input sets \<^verbatim>\<open>eofbit\<close>, and also \<^verbatim>\<open>failbit\<close>
  when nothing at all was extracted. The result is the string and the new world.
\<close>

definition getline :: "world \<Rightarrow> string \<Rightarrow> string \<times> world" where
  "getline w ln =
     (if cin_eofbit w \<or> cin_failbit w then (ln, w\<lparr>cin_failbit := True\<rparr>)
      else if NL \<in> set (cin_buf w) then
        (takeWhile (\<lambda>c. c \<noteq> NL) (cin_buf w),
         w\<lparr>cin_buf := tl (dropWhile (\<lambda>c. c \<noteq> NL) (cin_buf w))\<rparr>)
      else
        (cin_buf w, w\<lparr>cin_buf := [], cin_eofbit := True, cin_failbit := (cin_buf w = [])\<rparr>))"

text \<open>\<^verbatim>\<open>std::tolower\<close> in the C locale, which the program never changes.\<close>

definition tolower :: "char \<Rightarrow> char" where
  "tolower c =
     (case map_of (zip ''ABCDEFGHIJKLMNOPQRSTUVWXYZ'' ''abcdefghijklmnopqrstuvwxyz'') c of
        Some l \<Rightarrow> l
      | None \<Rightarrow> c)"

definition cerr_write :: "string \<Rightarrow> world \<Rightarrow> world" where
  "cerr_write s w = w\<lparr>cerr := cerr w @ s\<rparr>"

definition clog_write :: "string \<Rightarrow> world \<Rightarrow> world" where
  "clog_write s w = w\<lparr>clog := clog w @ s\<rparr>"

text \<open>
  The \<^verbatim>\<open>while (true)\<close> loop of \<^verbatim>\<open>Logger::ask_continue\<close>; \<open>ln\<close> is the variable \<^verbatim>\<open>line\<close>,
  declared before the loop and so kept from one iteration to the next. A run that never
  leaves the loop is the value \<open>None\<close>.
\<close>

partial_function (option) ask_continue_loop :: "world \<Rightarrow> string \<Rightarrow> (bool \<times> world) option" where
  "ask_continue_loop w ln =
     (let w1 = cerr_write ''An error has occured, do you want to continue? [y/N] '' w;
          ln' = fst (getline w1 ln);
          w2 = snd (getline w1 ln)
      in if ln' = [] then Some (False, w2)
         else if tolower (hd ln') = CHR ''y'' then Some (True, w2)
         else if tolower (hd ln') = CHR ''n'' then Some (False, w2)
         else ask_continue_loop (cerr_write (''Please enter y or n.'' @ [NL]) w2) ln')"

declare ask_continue_loop.simps [code]

definition ask_continue :: "world \<Rightarrow> (bool \<times> world) option" where
  "ask_continue w =
     (if \<not> is_stdin_available w then Some (False, w) else ask_continue_loop w [])"

definition print_log :: "string \<Rightarrow> bool \<Rightarrow> world \<Rightarrow> world" where
  "print_log p_msg p_err w = (if p_err then cerr_write p_msg w else clog_write p_msg w)"

definition get_time :: "Logger \<Rightarrow> world \<Rightarrow> string option" where
  "get_time lg w = format_time (clock w) (m_time_format lg)"

section \<open>The logging call\<close>

text \<open>The call site, as \<^verbatim>\<open>std::source_location\<close> captures it, and \<^verbatim>\<open>Logger::FormatString\<close>.\<close>

record source_location =
  src_file_name :: string
  src_function_name :: string
  src_line :: nat

record FormatString =
  fmt :: string
  source :: source_location

text \<open>\<^verbatim>\<open>Logger::format\<close> hands its arguments to \<^verbatim>\<open>std::vformat\<close>.\<close>

definition format :: "std_formatter \<Rightarrow> string \<Rightarrow> fmt_arg list \<Rightarrow> exception + string" where
  "format F p_fmt p_args = vformat F p_fmt p_args"

text \<open>
  How a call of \<^verbatim>\<open>log\<close> ends: it returns, an exception leaves it, or \<^verbatim>\<open>std::abort\<close> ends the
  process. Reading the label table with \<^verbatim>\<open>__LOG_LEVEL_AMOUNT\<close> as the level is an access
  past the end of the array, which C++ leaves undefined.
\<close>

datatype log_outcome = Returned | Thrown exception | Aborted | Undefined_Behaviour

text \<open>
  The label (line 111) and the line format (lines 118 to 121) that \<^verbatim>\<open>log\<close> selects.
\<close>

definition level_label :: "Logger \<Rightarrow> LogLevel \<Rightarrow> string" where
  "level_label lg T_Level =
     (if m_coloured lg then fst (m_LOG_LABELS ! level_value T_Level)
      else snd (m_LOG_LABELS ! level_value T_Level))"

definition line_format :: "Logger \<Rightarrow> string" where
  "line_format lg =
     (if m_log_format lg = [] then (if m_coloured lg then fst m_LOG_FORMATS else snd m_LOG_FORMATS)
      else m_log_format lg)"

text \<open>
  Lines 106 to 123 of \<^verbatim>\<open>Logger::log\<close>, which build the finished line: the time, the call
  site, the label, the user's message (the nested substitution), the function name, and
  the substitution of these six fields into the line format. The result is the finished
  line (\<open>Inr\<close>), or how the call ends when it ends here (\<open>Inl\<close>); \<open>None\<close> when the time
  formatter never returns.
\<close>

definition log_line ::
  "std_formatter \<Rightarrow> LogLevel \<Rightarrow> FormatString \<Rightarrow> fmt_arg list \<Rightarrow> Logger \<Rightarrow> world \<Rightarrow>
     (log_outcome + string) option" where
  "log_line F T_Level p_fmt p_args lg w =
     (case get_time lg w of
        None \<Rightarrow> None
      | Some time \<Rightarrow>
          let file = src_file_name (source p_fmt);
              function = src_function_name (source p_fmt);
              line = digits10 (src_line (source p_fmt))
          in if length m_LOG_LABELS \<le> level_value T_Level then Some (Inl Undefined_Behaviour)
             else
               let log_level = level_label lg T_Level
               in (case vformat F (fmt p_fmt) p_args of
                     Inl e \<Rightarrow> Some (Inl (Thrown e))
                   | Inr msg \<Rightarrow>
                       (case extract_function_name function of
                          Inl e \<Rightarrow> Some (Inl (Thrown e))
                        | Inr function' \<Rightarrow>
                            (case format F (line_format lg)
                                    [ArgString time, ArgString log_level, ArgString function',
                                     ArgString file, ArgString line, ArgString msg] of
                               Inl e \<Rightarrow> Some (Inl (Thrown e))
                             | Inr full \<Rightarrow> Some (Inr full)))))"

text \<open>
  \<^verbatim>\<open>Logger::log<T_Level>(p_fmt, p_args...)\<close>: the gate (line 104), the finished line, the
  write (line 125) and the escalation (lines 127 and 128). The result is how the call
  ends, the logger and the world after it; \<open>None\<close> when the call never ends.
\<close>

definition log ::
  "std_formatter \<Rightarrow> LogLevel \<Rightarrow> FormatString \<Rightarrow> fmt_arg list \<Rightarrow> Logger \<Rightarrow> world \<Rightarrow>
     (log_outcome \<times> Logger \<times> world) option" where
  "log F T_Level p_fmt p_args lg w =
     (if level_value T_Level < level_value (m_threshold_level lg) then Some (Returned, lg, w)
      else
        (case log_line F T_Level p_fmt p_args lg w of
           None \<Rightarrow> None
         | Some (Inl ended) \<Rightarrow> Some (ended, lg, w)
         | Some (Inr full) \<Rightarrow>
             let w1 = print_log full (level_value WARN \<le> level_value T_Level) w
             in if T_Level = ERROR \<and> m_abort_on_err lg then
                  (case ask_continue w1 of
                     None \<Rightarrow> None
                   | Some (continue, w2) \<Rightarrow>
                       if \<not> continue then Some (Aborted, lg, w2) else Some (Returned, lg, w2))
                else Some (Returned, lg, w1)))"

section \<open>Example values\<close>

definition example_time :: time_reading where
  "example_time =
     \<lparr>tm_sec = 9, tm_min = 5, tm_hour = 13, tm_mday = 7, tm_mon = 2, tm_year = 124,
      ms_count = 42\<rparr>"

definition example_world :: world where
  "example_world =
     \<lparr>clock = example_time, stdin_isatty = False, cin_buf = [], cin_eofbit = False,
      cin_failbit = False, cerr = [], clog = []\<rparr>"

definition example_source :: source_location where
  "example_source =
     \<lparr>src_file_name = ''test.cc'', src_function_name = ''int32_t main()'', src_line = 18\<rparr>"

text \<open>A formatter that rejects every non-empty format-spec, for format strings that have none.\<close>

definition no_spec :: std_formatter where
  "no_spec args ix spec a = None"

text \<open>Loggers for the examples: plain output, and line formats that cannot be substituted.\<close>

definition plain_logger :: Logger where
  "plain_logger = set_coloured_log False (new_Logger DEBUG)"

definition bad_index_logger :: Logger where
  "bad_index_logger = set_log_format (''[{0}] {6}'' @ [NL]) plain_logger"

definition bad_spec_logger :: Logger where
  "bad_spec_logger = set_log_format (''{5:x}'' @ [NL]) plain_logger"

definition unmatched_brace_logger :: Logger where
  "unmatched_brace_logger = set_log_format ''{'' plain_logger"

text \<open>
  Standard input is a terminal and holds the single character \<open>x\<close>, not followed by a
  newline, and then ends.
\<close>

definition unterminated_answer_world :: world where
  "unterminated_answer_world =
     \<lparr>clock = example_time, stdin_isatty = True, cin_buf = ''x'', cin_eofbit = False,
      cin_failbit = False, cerr = [], clog = []\<rparr>"

text \<open>
  A state of the loop of \<^verbatim>\<open>ask_continue\<close> from which no iteration makes progress: the
  stream is not good any more, and \<open>line\<close> holds a line that is neither empty nor an answer.
\<close>

definition stuck :: "world \<Rightarrow> string \<Rightarrow> bool" where
  "stuck w ln \<longleftrightarrow>
     (cin_eofbit w \<or> cin_failbit w) \<and> ln \<noteq> [] \<and>
     tolower (hd ln) \<noteq> CHR ''y'' \<and> tolower (hd ln) \<noteq> CHR ''n''"

section \<open>Properties of the time formatter\<close>

lemma prefix_take: "prefix tok s \<longleftrightarrow> take (length tok) s = tok"
  by (metis append_eq_conv_conj prefix_def take_is_prefix)

lemma take2_prefix: "take 2 s = [a, b] \<longleftrightarrow> prefix [a, b] s"
  using prefix_take[of "[a, b]" s] by (simp add: numeral_2_eq_2)

lemma take3_prefix: "take 3 s = [a, b, c] \<longleftrightarrow> prefix [a, b, c] s"
  using prefix_take[of "[a, b, c]" s] by (simp add: numeral_3_eq_3)

lemma prefix_percent: "prefix (CHR ''%'' # c # cs) s \<Longrightarrow> hd s = CHR ''%'' \<and> 2 \<le> length s"
  by (cases s; cases "tl s") auto

lemma format_time_step_prefix:
  "format_time_step t s out =
     (if prefix ''%MS'' s then (drop 3 s, out @ setw_setfill 3 CHR ''0'' (show_int (ms_count t)))
      else if prefix ''%S'' s then (drop 2 s, out @ setw_setfill 2 CHR ''0'' (show_int (tm_sec t)))
      else if prefix ''%M'' s then (drop 2 s, out @ setw_setfill 2 CHR ''0'' (show_int (tm_min t)))
      else if prefix ''%H'' s then (drop 2 s, out @ setw_setfill 2 CHR ''0'' (show_int (tm_hour t)))
      else if prefix ''%D'' s then (drop 2 s, out @ put_time_Ymd t)
      else (tl s, out @ [hd s]))"
proof (cases "hd s = CHR ''%'' \<and> 2 \<le> length s")
  case True
  then show ?thesis
    by (simp add: format_time_step_def take2_prefix take3_prefix drop_Suc)
next
  case False
  then have "\<not> prefix ''%MS'' s" "\<not> prefix ''%S'' s" "\<not> prefix ''%M'' s"
    "\<not> prefix ''%H'' s" "\<not> prefix ''%D'' s"
    using prefix_percent by blast+
  moreover have "format_time_step t s out = (drop 1 s, out @ [hd s])"
    by (simp only: format_time_step_def False if_False)
  ultimately show ?thesis
    by (simp add: drop_Suc)
qed

lemma format_time_step_shorter:
  "p \<noteq> [] \<Longrightarrow> length (fst (format_time_step t p out)) < length p"
  by (simp add: format_time_step_def)

lemma format_time_step_removes:
  assumes "p \<noteq> []"
  shows "length p - length (fst (format_time_step t p out)) = 1
       \<or> length p - length (fst (format_time_step t p out)) = 2
       \<or> length p - length (fst (format_time_step t p out)) = 3"
  using assms by (cases p; cases "tl p"; cases "tl (tl p)") (auto simp: format_time_step_def)

lemma format_time_loop_Nil: "format_time_loop t [] out = Some out"
  by (subst format_time_loop.simps) simp

lemma format_time_loop_step:
  "p \<noteq> [] \<Longrightarrow> format_time_loop t p out =
     format_time_loop t (fst (format_time_step t p out)) (snd (format_time_step t p out))"
  by (subst format_time_loop.simps) simp

text \<open>The loop leaves: the remaining format gets shorter with every iteration.\<close>

lemma format_time_loop_returns: "\<exists>r. format_time_loop t p out = Some r"
proof (induction p arbitrary: out rule: length_induct)
  case (1 p)
  show ?case
  proof (cases "p = []")
    case True
    then show ?thesis by (simp add: format_time_loop_Nil)
  next
    case False
    from format_time_step_shorter[OF False] 1
    have "\<exists>r. format_time_loop t (fst (format_time_step t p out)) (snd (format_time_step t p out)) = Some r"
      by blast
    then show ?thesis by (simp add: format_time_loop_step[OF False])
  qed
qed

lemma format_time_loop_render: "format_time_loop t s out = Some (out @ spec_render t s)"
proof (induction t s arbitrary: out rule: spec_render.induct)
  case (1 t s)
  show ?case
  proof (cases "s = []")
    case True
    then show ?thesis by (simp add: format_time_loop_Nil spec_render.simps)
  next
    case ne: False
    show ?thesis
      using "1.IH" ne
      by (simp add: format_time_loop_step[OF ne] format_time_step_prefix spec_render.simps[of t s])
  qed
qed

lemma format_time_render: "format_time t p_fmt = Some (spec_render t p_fmt)"
  by (simp add: format_time_def format_time_loop_render)

lemma digits10_small: "n < 10 \<Longrightarrow> digits10 n = [digit_char n]"
  by (simp add: digits10.simps)

lemma digits10_two: "10 \<le> n \<Longrightarrow> n < 100 \<Longrightarrow> digits10 n = [digit_char (n div 10), digit_char (n mod 10)]"
  by (subst digits10.simps) (simp add: digits10_small)

lemma digits10_three:
  "100 \<le> n \<Longrightarrow> n < 1000 \<Longrightarrow>
     digits10 n = [digit_char (n div 100), digit_char (n div 10 mod 10), digit_char (n mod 10)]"
  by (subst digits10.simps) (simp add: digits10_two div_mult2_eq[symmetric])

lemma zero_pad_2:
  assumes "n < 100"
  shows "setw_setfill 2 CHR ''0'' (show_int (int n)) = [digit_char (n div 10), digit_char (n mod 10)]"
proof (cases "n < 10")
  case True
  then show ?thesis
    by (simp add: setw_setfill_def show_int_def digits10_small digit_char_def)
next
  case False
  with assms show ?thesis
    by (simp add: setw_setfill_def show_int_def digits10_two)
qed

lemma zero_pad_3:
  assumes "n < 1000"
  shows "setw_setfill 3 CHR ''0'' (show_int (int n)) =
           [digit_char (n div 100), digit_char (n div 10 mod 10), digit_char (n mod 10)]"
proof -
  consider "n < 10" | "10 \<le> n" "n < 100" | "100 \<le> n" by linarith
  then show ?thesis
  proof cases
    case 1
    then have "replicate (3 - length (digits10 n)) CHR ''0'' = ''00''"
      by (simp add: digits10_small numeral_2_eq_2)
    with 1 show ?thesis
      by (simp add: setw_setfill_def show_int_def digits10_small digit_char_def)
  next
    case 2
    then show ?thesis
      by (simp add: setw_setfill_def show_int_def digits10_two digit_char_def)
  next
    case 3
    with assms show ?thesis
      by (simp add: setw_setfill_def show_int_def digits10_three)
  qed
qed

text \<open>
  Claim C2. For every format string and every time reading, \<^verbatim>\<open>format_time\<close> returns the
  text of the left-to-right scan that tries \<open>%MS\<close> first, then \<open>%S\<close>, \<open>%M\<close>, \<open>%H\<close> and
  \<open>%D\<close>, and copies every other character, an unmatched \<open>%\<close> included (the function
  \<open>spec_render\<close>); it never fails. The milliseconds come out as exactly three digits and
  seconds, minutes and hours as exactly two, with leading zeros. The empty format gives
  the empty string, \<open>literal\<close> gives \<open>literal\<close>, and \<open>%H:%M:%S.%MS\<close> at 13:05:09.042 gives
  \<open>13:05:09.042\<close>; \<open>%D\<close> on the 7th of March 2024 gives \<open>2024-03-07\<close>.
\<close>

theorem format_time_renders_tokens:
  "format_time t p_fmt = Some (spec_render t p_fmt)
   \<and> format_time t [] = Some []
   \<and> format_time t ''literal'' = Some ''literal''
   \<and> format_time t ''100%'' = Some ''100%''
   \<and> format_time (t\<lparr>tm_hour := 13, tm_min := 5, tm_sec := 9, ms_count := 42\<rparr>) ''%H:%M:%S.%MS''
       = Some ''13:05:09.042''
   \<and> format_time (t\<lparr>tm_year := 124, tm_mon := 2, tm_mday := 7\<rparr>) ''%D'' = Some ''2024-03-07''
   \<and> (n < 1000 \<longrightarrow>
        format_time (t\<lparr>ms_count := int n\<rparr>) ''%MS''
          = Some [digit_char (n div 100), digit_char (n div 10 mod 10), digit_char (n mod 10)])
   \<and> (n < 100 \<longrightarrow>
        format_time (t\<lparr>tm_sec := int n\<rparr>) ''%S'' = Some [digit_char (n div 10), digit_char (n mod 10)]
      \<and> format_time (t\<lparr>tm_min := int n\<rparr>) ''%M'' = Some [digit_char (n div 10), digit_char (n mod 10)]
      \<and> format_time (t\<lparr>tm_hour := int n\<rparr>) ''%H'' = Some [digit_char (n div 10), digit_char (n mod 10)])"
proof -
  have a: "format_time t p_fmt = Some (spec_render t p_fmt)"
    by (rule format_time_render)
  have b: "format_time t [] = Some []"
    by (simp add: format_time_render spec_render.simps)
  have c: "format_time t ''literal'' = Some ''literal''"
    by (simp add: format_time_render spec_render.simps)
  have d: "format_time t ''100%'' = Some ''100%''"
    by (simp add: format_time_render spec_render.simps)
  have e: "format_time (t\<lparr>tm_hour := 13, tm_min := 5, tm_sec := 9, ms_count := 42\<rparr>) ''%H:%M:%S.%MS''
       = Some ''13:05:09.042''"
    by (simp add: format_time_render spec_render.simps setw_setfill_def show_int_def digits10.simps
        digit_char_def)
  have f: "format_time (t\<lparr>tm_year := 124, tm_mon := 2, tm_mday := 7\<rparr>) ''%D'' = Some ''2024-03-07''"
    by (simp add: format_time_render spec_render.simps put_time_Ymd_def setw_setfill_def show_int_def
        digits10.simps digit_char_def)
  have g: "n < 1000 \<longrightarrow>
        format_time (t\<lparr>ms_count := int n\<rparr>) ''%MS''
          = Some [digit_char (n div 100), digit_char (n div 10 mod 10), digit_char (n mod 10)]"
    by (simp add: format_time_render spec_render.simps zero_pad_3)
  have h: "n < 100 \<longrightarrow>
        format_time (t\<lparr>tm_sec := int n\<rparr>) ''%S'' = Some [digit_char (n div 10), digit_char (n mod 10)]
      \<and> format_time (t\<lparr>tm_min := int n\<rparr>) ''%M'' = Some [digit_char (n div 10), digit_char (n mod 10)]
      \<and> format_time (t\<lparr>tm_hour := int n\<rparr>) ''%H'' = Some [digit_char (n div 10), digit_char (n mod 10)]"
    by (simp add: format_time_render spec_render.simps zero_pad_2)
  from a b c d e f g h show ?thesis by blast
qed

theorem format_time_renders_tokens_witness:
  "format_time example_time ''[%D %H:%M:%S.%MS] %x %'' = Some ''[2024-03-07 13:05:09.042] %x %''
   \<and> format_time (example_time\<lparr>ms_count := 7\<rparr>) ''%MS'' = Some ''007''
   \<and> format_time (example_time\<lparr>tm_sec := 59\<rparr>) ''%S'' = Some ''59''"
  using format_time_renders_tokens[of example_time "''[%D %H:%M:%S.%MS] %x %''" 7]
    format_time_renders_tokens[of example_time "[]" 59]
  by (simp add: example_time_def spec_render.simps put_time_Ymd_def setw_setfill_def show_int_def
      digits10.simps digit_char_def)

text \<open>
  Claim C10. The scanning loop of \<^verbatim>\<open>format_time\<close> terminates on every format string: the
  call returns a string, because each iteration entered with a non-empty remaining format
  leaves a remaining format that is shorter by one, two or three characters.
\<close>

theorem format_time_loop_terminates:
  "(\<exists>r. format_time t p_fmt = Some r)
   \<and> (\<exists>r. format_time_loop t p_fmt out = Some r)
   \<and> (p_fmt \<noteq> [] \<longrightarrow>
        length (fst (format_time_step t p_fmt out)) < length p_fmt
        \<and> (length p_fmt - length (fst (format_time_step t p_fmt out)) = 1
           \<or> length p_fmt - length (fst (format_time_step t p_fmt out)) = 2
           \<or> length p_fmt - length (fst (format_time_step t p_fmt out)) = 3))"
  using format_time_loop_returns[of t p_fmt out] format_time_loop_returns[of t p_fmt "[]"]
    format_time_step_shorter[of p_fmt t out] format_time_step_removes[of p_fmt t out]
  by (simp add: format_time_def)

theorem format_time_loop_terminates_witness:
  "(\<exists>r. format_time example_time ''%MS.%S:%M'' = Some r)
   \<and> fst (format_time_step example_time ''%MS.%S:%M'' []) = ''.%S:%M''
   \<and> length ''%MS.%S:%M'' - length (fst (format_time_step example_time ''%MS.%S:%M'' [])) = 3"
  using format_time_loop_terminates[of example_time "''%MS.%S:%M''" "[]"]
  by (simp add: format_time_step_def)

section \<open>Properties of the function-name extraction\<close>

lemma unat_npos: "unat npos = 2 ^ 64 - 1"
  by (simp add: npos_def unsigned_minus_1_eq_mask mask_eq_exp_minus_1)

lemma npos_plus_1: "npos + 1 = 0"
  by (simp add: npos_def)

lemma unat_of_nat64: "n < 2 ^ 64 \<Longrightarrow> unat (of_nat n :: 64 word) = n"
  by (simp add: unat_of_nat)

lemma unat_of_nat64_Suc: "Suc n < 2 ^ 64 \<Longrightarrow> unat (of_nat n + 1 :: 64 word) = Suc n"
  using unat_of_nat64[of "Suc n"] by (simp add: add.commute)

lemma unat_of_nat_Suc_le: "unat (of_nat n + 1 :: 64 word) \<le> Suc n"
  by (metis Suc_eq_plus1 le_unat_uoi nat_le_linear of_nat_1 of_nat_add)

lemma length_takeWhile_neq: "c \<in> set s \<Longrightarrow> length (takeWhile (\<lambda>x. x \<noteq> c) s) < length s"
  by (induction s) auto

lemma first_substr:
  assumes len: "length s < 2 ^ 64"
  shows "substr s (find_char s CHR '' '' + 1) npos = Inr (strip_through_first_space s)"
proof (cases "CHR '' '' \<in> set s")
  case True
  let ?n = "length (takeWhile (\<lambda>x. x \<noteq> CHR '' '') s)"
  have lt: "?n < length s"
    using True by (rule length_takeWhile_neq)
  then have u: "unat (of_nat ?n + 1 :: 64 word) = Suc ?n"
    using len by (intro unat_of_nat64_Suc) simp
  have d: "drop (Suc ?n) s = tl (dropWhile (\<lambda>x. x \<noteq> CHR '' '') s)"
    by (simp add: drop_Suc drop_tl dropWhile_eq_drop)
  have "length (drop (Suc ?n) s) \<le> unat npos"
    using len by (simp add: unat_npos)
  then have "substr s (of_nat ?n + 1) npos = Inr (drop (Suc ?n) s)"
    using lt by (simp add: substr_def u)
  then show ?thesis
    using True by (simp add: find_char_def strip_through_first_space_def d)
next
  case False
  have "length s \<le> unat npos"
    using len by (simp add: unat_npos)
  then have "substr s 0 npos = Inr s"
    by (simp add: substr_def)
  then show ?thesis
    using False by (simp add: find_char_def npos_plus_1 strip_through_first_space_def)
qed

lemma second_substr:
  assumes len: "length s < 2 ^ 64"
  shows "substr s 0 (find_char s CHR ''('') = Inr (truncate_at_paren s)"
proof (cases "CHR ''('' \<in> set s")
  case True
  let ?n = "length (takeWhile (\<lambda>x. x \<noteq> CHR ''('') s)"
  have "?n \<le> length s" by (simp add: length_takeWhile_le)
  then have u: "unat (of_nat ?n :: 64 word) = ?n"
    using len by (intro unat_of_nat64) simp
  show ?thesis
    using True
    by (simp add: substr_def find_char_def u truncate_at_paren_def takeWhile_eq_take[symmetric])
next
  case False
  have "length s \<le> unat npos"
    using len by (simp add: unat_npos)
  then have "substr s 0 (find_char s CHR ''('') = Inr s"
    using False by (simp add: substr_def find_char_def)
  moreover have "truncate_at_paren s = s"
    unfolding truncate_at_paren_def using False by auto
  ultimately show ?thesis by (simp only:)
qed

lemma strip_through_first_space_length: "length (strip_through_first_space s) \<le> length s"
  using length_dropWhile_le[of "\<lambda>x. x \<noteq> CHR '' ''" s]
  by (auto simp: strip_through_first_space_def)

lemma extract_function_name_eq:
  assumes "length s < 2 ^ 64"
  shows "extract_function_name s = Inr (truncate_at_paren (strip_through_first_space s))"
proof -
  have "length (strip_through_first_space s) < 2 ^ 64"
    using strip_through_first_space_length[of s] assms by simp
  then show ?thesis
    by (simp add: extract_function_name_def first_substr[OF assms] second_substr)
qed

lemma find_char_succ_in_range: "unat (find_char s c + 1) \<le> length s"
proof (cases "c \<in> set s")
  case True
  from length_takeWhile_neq[OF True] unat_of_nat_Suc_le[of "length (takeWhile (\<lambda>x. x \<noteq> c) s)"]
  show ?thesis using True by (simp add: find_char_def)
next
  case False
  then show ?thesis by (simp add: find_char_def npos_plus_1)
qed

text \<open>Neither \<^verbatim>\<open>substr\<close> of the extraction can throw: both positions are within the string.\<close>

lemma extract_function_name_never_throws: "\<exists>f. extract_function_name s = Inr f"
proof -
  obtain f1 where "substr s (find_char s CHR '' '' + 1) npos = Inr f1"
    using find_char_succ_in_range[of s "CHR '' ''"] by (simp add: substr_def)
  then show ?thesis
    by (simp add: extract_function_name_def substr_def)
qed

text \<open>
  Claim C6. The function-name extraction of \<^verbatim>\<open>log\<close> (for a signature that fits the address
  space) drops everything through the first space, keeping the whole text when there is
  no space, and then cuts at the first opening parenthesis. So a signature made of a
  one-word return type, a space, a name and a parenthesised parameter list yields the
  name: \<open>int32_t main()\<close> yields \<open>main\<close>, and \<open>void ns::Class::method(int, float)\<close>
  yields \<open>ns::Class::method\<close>.
\<close>

theorem extract_function_name_strips_and_truncates:
  "(length function < 2 ^ 64 \<longrightarrow>
      extract_function_name function = Inr (truncate_at_paren (strip_through_first_space function)))
   \<and> (CHR '' '' \<notin> set function \<longrightarrow> strip_through_first_space function = function)
   \<and> strip_through_first_space (ret @ CHR '' '' # rest) =
       (if CHR '' '' \<in> set ret then strip_through_first_space ret @ CHR '' '' # rest else rest)
   \<and> (CHR ''('' \<notin> set name \<longrightarrow> truncate_at_paren (name @ CHR ''('' # params) = name)
   \<and> (CHR '' '' \<notin> set ret \<and> CHR ''('' \<notin> set name
        \<and> length (ret @ CHR '' '' # name @ CHR ''('' # params) < 2 ^ 64 \<longrightarrow>
        extract_function_name (ret @ CHR '' '' # name @ CHR ''('' # params) = Inr name)
   \<and> extract_function_name ''int32_t main()'' = Inr ''main''
   \<and> extract_function_name ''void ns::Class::method(int, float)'' = Inr ''ns::Class::method''"
proof -
  have a: "length function < 2 ^ 64 \<longrightarrow>
      extract_function_name function = Inr (truncate_at_paren (strip_through_first_space function))"
    by (simp add: extract_function_name_eq)
  have b: "CHR '' '' \<notin> set function \<longrightarrow> strip_through_first_space function = function"
    by (simp add: strip_through_first_space_def)
  have c: "strip_through_first_space (ret @ CHR '' '' # rest) =
       (if CHR '' '' \<in> set ret then strip_through_first_space ret @ CHR '' '' # rest else rest)"
    by (induction ret) (auto simp: strip_through_first_space_def)
  have d: "CHR ''('' \<notin> set name \<longrightarrow> truncate_at_paren (name @ CHR ''('' # params) = name"
    by (induction name) (auto simp: truncate_at_paren_def)
  have e: "extract_function_name ''int32_t main()'' = Inr ''main''"
    by (simp add: extract_function_name_eq truncate_at_paren_def strip_through_first_space_def)
  have f: "extract_function_name ''void ns::Class::method(int, float)'' = Inr ''ns::Class::method''"
    by (simp add: extract_function_name_eq truncate_at_paren_def strip_through_first_space_def)
  have c': "strip_through_first_space (ret @ CHR '' '' # rest') =
       (if CHR '' '' \<in> set ret then strip_through_first_space ret @ CHR '' '' # rest' else rest')"
    for rest'
    by (induction ret) (auto simp: strip_through_first_space_def)
  have g: "CHR '' '' \<notin> set ret \<and> CHR ''('' \<notin> set name
        \<and> length (ret @ CHR '' '' # name @ CHR ''('' # params) < 2 ^ 64 \<longrightarrow>
        extract_function_name (ret @ CHR '' '' # name @ CHR ''('' # params) = Inr name"
    using d by (simp add: extract_function_name_eq c')
  from a b c d e f g show ?thesis by blast
qed

theorem extract_function_name_strips_and_truncates_witness:
  "extract_function_name ''static auto Logger::get(void)'' = Inr ''auto Logger::get''
   \<and> strip_through_first_space ''main'' = ''main''
   \<and> strip_through_first_space ''int f'' = ''f''
   \<and> truncate_at_paren ''f(int)'' = ''f''
   \<and> extract_function_name ''int f(int)'' = Inr ''f''"
  using extract_function_name_strips_and_truncates
    [of "''static auto Logger::get(void)''" "''int''" "''f''" "''f''" "''int)''"]
    extract_function_name_strips_and_truncates [of "''main''" "''int''" "''f''" "''f''" "''int)''"]
  by (simp add: truncate_at_paren_def strip_through_first_space_def)

section \<open>Properties of the logger's configuration\<close>

text \<open>
  Claim C5, at the input where the code departs from it: a logger is constructed with the
  time format \<open>%M:%S.%MS\<close>, but \<^verbatim>\<open>set_time_format()\<close> called without an argument stores
  the default argument of its declaration, \<open>%MS.%S:%M\<close>, which is a different string.
\<close>

theorem set_time_format_default_differs:
  "m_time_format (new_Logger WARN) = ''%M:%S.%MS''
   \<and> m_time_format (set_time_format set_time_format_default_arg (new_Logger WARN)) = ''%MS.%S:%M''
   \<and> m_time_format (set_time_format set_time_format_default_arg (new_Logger WARN))
       \<noteq> m_time_format (new_Logger WARN)"
  by (simp add: new_Logger_def set_time_format_def set_time_format_default_arg_def)

section \<open>Properties of the logging call\<close>

text \<open>
  Claim C1. A call of \<^verbatim>\<open>log\<close> whose level is below the threshold returns at once: the
  world is as before (nothing was written to either stream, standard input was not read,
  and the call did not end in the abort of the escalation) and the logger is as before.
\<close>

theorem log_below_threshold_no_effect:
  "level_value T_Level < level_value (m_threshold_level lg) \<Longrightarrow>
     log F T_Level p_fmt p_args lg w = Some (Returned, lg, w)"
  by (simp add: log_def)

theorem log_below_threshold_no_effect_witness:
  "level_value DEBUG < level_value (m_threshold_level (new_Logger WARN))
   \<and> log no_spec DEBUG \<lparr>fmt = ''x'', source = example_source\<rparr> [] (new_Logger WARN) example_world
       = Some (Returned, new_Logger WARN, example_world)"
proof -
  have h: "level_value DEBUG < level_value (m_threshold_level (new_Logger WARN))"
    by (simp add: new_Logger_def)
  from h log_below_threshold_no_effect[OF h] show ?thesis by simp
qed

text \<open>
  Claim C9. \<^verbatim>\<open>log\<close> never reads the ask-continue-on-error flag: with the flag set to any
  value, a call ends the same way, leaves the same world (the same output on both
  streams, the same input consumed), and leaves the logger as it was.
\<close>

theorem log_ignores_ask_continue_flag:
  "log F T_Level p_fmt p_args (lg\<lparr>m_ask_continue := b\<rparr>) w =
     map_option (\<lambda>(ended, lg', w'). (ended, lg'\<lparr>m_ask_continue := b\<rparr>, w'))
       (log F T_Level p_fmt p_args lg w)"
  by (auto simp: log_def log_line_def get_time_def level_label_def line_format_def Let_def
      split: option.splits sum.splits)

theorem log_ignores_ask_continue_flag_witness:
  "log no_spec ERROR \<lparr>fmt = ''x'', source = example_source\<rparr> [] (ask_continue_on_error False (new_Logger WARN)) example_world
     = map_option (\<lambda>(ended, lg', w'). (ended, lg'\<lparr>m_ask_continue := False\<rparr>, w'))
         (log no_spec ERROR \<lparr>fmt = ''x'', source = example_source\<rparr> [] (new_Logger WARN) example_world)"
  using log_ignores_ask_continue_flag
    [where F = no_spec and T_Level = ERROR and lg = "new_Logger WARN" and b = False
       and w = example_world and p_args = "[]" and p_fmt = "\<lparr>fmt = ''x'', source = example_source\<rparr>"]
  by (simp add: ask_continue_on_error_def)

section \<open>Properties of the escalation prompt\<close>

lemma getline_not_good:
  "cin_eofbit w \<or> cin_failbit w \<Longrightarrow> getline w ln = (ln, w\<lparr>cin_failbit := True\<rparr>)"
  by (simp add: getline_def)

lemma getline_line:
  assumes "\<not> cin_eofbit w" "\<not> cin_failbit w" "cin_buf w = l @ NL # rest" "NL \<notin> set l"
  shows "getline w ln = (l, w\<lparr>cin_buf := rest\<rparr>)"
proof -
  have "takeWhile (\<lambda>c. c \<noteq> NL) (l @ NL # rest) = l"
    using assms(4) by (induction l) auto
  moreover have "dropWhile (\<lambda>c. c \<noteq> NL) (l @ NL # rest) = NL # rest"
    using assms(4) by (induction l) auto
  ultimately show ?thesis
    using assms by (simp add: getline_def)
qed

lemma getline_end_of_input:
  assumes "\<not> cin_eofbit w" "\<not> cin_failbit w" "cin_buf w = []"
  shows "getline w ln = ([], w\<lparr>cin_buf := [], cin_eofbit := True, cin_failbit := True\<rparr>)"
  using assms by (simp add: getline_def)

text \<open>
  What \<^verbatim>\<open>ask_continue\<close> does right: it returns false at once without a terminal; with a
  terminal it writes the prompt, reads a line, and answers false to an empty line, true to
  a line that starts with \<open>y\<close> or \<open>Y\<close>, false to one that starts with \<open>n\<close> or \<open>N\<close>, and
  asks again after any other line; when the input ends where a line would begin, it
  answers false.
\<close>

lemma ask_continue_without_terminal: "\<not> stdin_isatty w \<Longrightarrow> ask_continue w = Some (False, w)"
  by (simp add: ask_continue_def is_stdin_available_def)

lemma ask_continue_loop_on_line:
  assumes "\<not> cin_eofbit w" "\<not> cin_failbit w" "cin_buf w = l @ NL # rest" "NL \<notin> set l"
  shows "ask_continue_loop w ln =
     (let w2 = (cerr_write ''An error has occured, do you want to continue? [y/N] '' w)
                 \<lparr>cin_buf := rest\<rparr>
      in if l = [] then Some (False, w2)
         else if tolower (hd l) = CHR ''y'' then Some (True, w2)
         else if tolower (hd l) = CHR ''n'' then Some (False, w2)
         else ask_continue_loop (cerr_write (''Please enter y or n.'' @ [NL]) w2) l)"
proof -
  let ?w1 = "cerr_write ''An error has occured, do you want to continue? [y/N] '' w"
  have "getline ?w1 ln = (l, ?w1\<lparr>cin_buf := rest\<rparr>)"
    by (rule getline_line) (use assms in \<open>simp_all add: cerr_write_def\<close>)
  then show ?thesis
    by (subst ask_continue_loop.simps) (simp add: Let_def)
qed

lemma ask_continue_loop_at_end_of_input:
  assumes "\<not> cin_eofbit w" "\<not> cin_failbit w" "cin_buf w = []"
  shows "ask_continue_loop w ln =
     Some (False, (cerr_write ''An error has occured, do you want to continue? [y/N] '' w)
                    \<lparr>cin_buf := [], cin_eofbit := True, cin_failbit := True\<rparr>)"
proof -
  let ?w1 = "cerr_write ''An error has occured, do you want to continue? [y/N] '' w"
  have "getline ?w1 ln = ([], ?w1\<lparr>cin_buf := [], cin_eofbit := True, cin_failbit := True\<rparr>)"
    by (rule getline_end_of_input) (use assms in \<open>simp_all add: cerr_write_def\<close>)
  then show ?thesis
    by (subst ask_continue_loop.simps) (simp add: Let_def)
qed

text \<open>
  What it misses: once the stream is not good any more, \<^verbatim>\<open>getline\<close> leaves \<open>line\<close> as it
  was. With a line in it that is neither empty nor an answer, every further iteration
  finds the same line, and the loop never ends.
\<close>

lemma stuck_never_returns:
  assumes "ask_continue_loop w ln = Some r"
  shows "\<not> stuck w ln"
proof (rule ask_continue_loop.raw_induct
    [where P = "\<lambda>w ln r. \<not> stuck w ln" and w = w and ln = ln and y = r])
  show "ask_continue_loop w ln = Some r" by fact
next
  fix loop :: "world \<Rightarrow> string \<Rightarrow> (bool \<times> world) option" and w ln r
  assume IH: "\<And>w ln r. loop w ln = Some r \<Longrightarrow> \<not> stuck w ln"
  assume body: "(let w1 = cerr_write ''An error has occured, do you want to continue? [y/N] '' w;
          ln' = fst (getline w1 ln); w2 = snd (getline w1 ln)
      in if ln' = [] then Some (False, w2)
         else if tolower (hd ln') = CHR ''y'' then Some (True, w2)
              else if tolower (hd ln') = CHR ''n'' then Some (False, w2)
                   else loop (cerr_write (''Please enter y or n.'' @ [NL]) w2) ln') = Some r"
  show "\<not> stuck w ln"
  proof
    assume s: "stuck w ln"
    let ?w1 = "cerr_write ''An error has occured, do you want to continue? [y/N] '' w"
    have ng: "cin_eofbit ?w1 \<or> cin_failbit ?w1"
      using s by (simp add: stuck_def cerr_write_def)
    let ?w3 = "cerr_write (''Please enter y or n.'' @ [NL]) (?w1\<lparr>cin_failbit := True\<rparr>)"
    have "loop ?w3 ln = Some r"
      using body s by (simp add: getline_not_good[OF ng] stuck_def Let_def)
    from IH[OF this] have "\<not> stuck ?w3 ln" .
    moreover have "stuck ?w3 ln"
      using s by (simp add: stuck_def cerr_write_def)
    ultimately show False by simp
  qed
qed

lemma stuck_diverges: "stuck w ln \<Longrightarrow> ask_continue_loop w ln = None"
  using stuck_never_returns by (cases "ask_continue_loop w ln") auto

text \<open>The prompt only ever appends to \<^verbatim>\<open>std::cerr\<close> and never touches \<^verbatim>\<open>std::clog\<close>.\<close>

lemma ask_continue_loop_streams:
  assumes "ask_continue_loop w ln = Some r"
  shows "clog (snd r) = clog w \<and> prefix (cerr w) (cerr (snd r))"
proof (rule ask_continue_loop.raw_induct
    [where P = "\<lambda>w ln r. clog (snd r) = clog w \<and> prefix (cerr w) (cerr (snd r))"
       and w = w and ln = ln and y = r])
  show "ask_continue_loop w ln = Some r" by fact
next
  fix loop :: "world \<Rightarrow> string \<Rightarrow> (bool \<times> world) option" and w ln r
  assume IH: "\<And>w ln r. loop w ln = Some r \<Longrightarrow>
                clog (snd r) = clog w \<and> prefix (cerr w) (cerr (snd r))"
  assume body: "(let w1 = cerr_write ''An error has occured, do you want to continue? [y/N] '' w;
          ln' = fst (getline w1 ln); w2 = snd (getline w1 ln)
      in if ln' = [] then Some (False, w2)
         else if tolower (hd ln') = CHR ''y'' then Some (True, w2)
              else if tolower (hd ln') = CHR ''n'' then Some (False, w2)
                   else loop (cerr_write (''Please enter y or n.'' @ [NL]) w2) ln') = Some r"
  let ?w1 = "cerr_write ''An error has occured, do you want to continue? [y/N] '' w"
  let ?w2 = "snd (getline ?w1 ln)"
  have g: "clog ?w2 = clog w \<and>
           cerr ?w2 = cerr w @ ''An error has occured, do you want to continue? [y/N] ''"
    by (simp add: getline_def cerr_write_def)
  show "clog (snd r) = clog w \<and> prefix (cerr w) (cerr (snd r))"
  proof (cases "fst (getline ?w1 ln) = [] \<or> tolower (hd (fst (getline ?w1 ln))) = CHR ''y''
                \<or> tolower (hd (fst (getline ?w1 ln))) = CHR ''n''")
    case True
    then have "snd r = ?w2"
      using body by (auto simp: Let_def split: if_splits)
    with g show ?thesis by simp
  next
    case False
    then have "loop (cerr_write (''Please enter y or n.'' @ [NL]) ?w2) (fst (getline ?w1 ln)) = Some r"
      using body by (simp add: Let_def)
    from IH[OF this] g show ?thesis
      by (auto simp: cerr_write_def prefix_def)
  qed
qed

lemma ask_continue_streams:
  assumes "ask_continue w = Some (continue, w2)"
  shows "clog w2 = clog w \<and> prefix (cerr w) (cerr w2)"
proof (cases "stdin_isatty w")
  case True
  then have "ask_continue_loop w [] = Some (continue, w2)"
    using assms by (simp add: ask_continue_def is_stdin_available_def)
  from ask_continue_loop_streams[OF this] show ?thesis by simp
next
  case False
  then show ?thesis
    using assms by (simp add: ask_continue_def is_stdin_available_def)
qed

text \<open>
  Claim C4, at the input where the code departs from it: standard input is a terminal and
  holds the single character \<open>x\<close>, not followed by a newline, and then ends. The first
  \<^verbatim>\<open>getline\<close> reads \<open>x\<close> and meets the end of the input; \<open>x\<close> is no answer, so the loop goes
  on, and from then on it is stuck: \<^verbatim>\<open>ask_continue\<close> never returns, where the claim has
  it return false.
\<close>

theorem ask_continue_unterminated_answer_never_returns:
  "ask_continue unterminated_answer_world = None"
proof -
  let ?w = unterminated_answer_world
  let ?w2 = "snd (getline (cerr_write ''An error has occured, do you want to continue? [y/N] '' ?w) [])"
  have x: "tolower CHR ''x'' = CHR ''x''"
    by (simp add: tolower_def)
  have "ask_continue ?w = ask_continue_loop ?w []"
    by (simp add: ask_continue_def is_stdin_available_def unterminated_answer_world_def)
  also have "\<dots> = ask_continue_loop (cerr_write (''Please enter y or n.'' @ [NL]) ?w2) ''x''"
    by (subst ask_continue_loop.simps)
      (simp add: Let_def getline_def cerr_write_def unterminated_answer_world_def x NL_def)
  also have "\<dots> = None"
    by (rule stuck_diverges)
      (simp add: stuck_def getline_def cerr_write_def unterminated_answer_world_def x NL_def)
  finally show ?thesis .
qed

section \<open>Properties of the format scanner\<close>

lemma spec_close_bound: "spec_close d s = Some k \<Longrightarrow> k < length s"
  by (induction d s arbitrary: k rule: spec_close.induct) (auto split: if_splits)

lemma spec_close_append: "spec_close d s = Some k \<Longrightarrow> spec_close d (s @ t) = Some k"
  by (induction d s arbitrary: k rule: spec_close.induct) (auto split: if_splits)

lemma parse_arg_id_append:
  assumes "parse_arg_id ix r = Some (i, ix1, r1)" "r1 \<noteq> []"
  shows "parse_arg_id ix (r @ t) = Some (i, ix1, r1 @ t)"
proof -
  have r1: "r1 = dropWhile is_digit r"
    using assms(1) by (auto simp: parse_arg_id_def Let_def split: if_splits)
  with assms(2) obtain x where x: "x \<in> set r" "\<not> is_digit x"
    by (metis dropWhile_eq_Nil_conv)
  have t: "takeWhile is_digit (r @ t) = takeWhile is_digit r"
    using x by (rule takeWhile_append1)
  have d: "dropWhile is_digit (r @ t) = dropWhile is_digit r @ t"
    using x by (rule dropWhile_append1)
  show ?thesis
    using assms(1) by (auto simp: parse_arg_id_def Let_def t d split: if_splits)
qed

lemma replacement_field_append:
  assumes "replacement_field F args ix r = Some (out, ix', rest)"
  shows "replacement_field F args ix (r @ t) = Some (out, ix', rest @ t)"
proof -
  obtain i ix1 r1 where p: "parse_arg_id ix r = Some (i, ix1, r1)"
    using assms by (auto simp: replacement_field_def split: option.splits)
  have ne: "r1 \<noteq> []"
    using assms p by (auto simp: replacement_field_def split: if_splits)
  note pa = parse_arg_id_append[OF p ne, of t]
  show ?thesis
  proof (cases "hd r1 = CHR ''}''")
    case True
    then show ?thesis
      using assms p ne by (auto simp: replacement_field_def pa split: if_splits)
  next
    case False
    then have colon: "hd r1 = CHR '':''" and ia: "\<not> length args \<le> i"
      using assms p ne by (auto simp: replacement_field_def split: if_splits)
    obtain k where k: "spec_close 0 (tl r1) = Some k"
      using assms p ne False colon ia by (auto simp: replacement_field_def split: option.splits)
    note kb = spec_close_bound[OF k]
    note ka = spec_close_append[OF k, of t]
    show ?thesis
      using assms p ne False colon ia k kb
      by (auto simp: replacement_field_def pa ka split: option.splits if_splits)
  qed
qed

lemma vformat_scan_append:
  "vformat_scan F args ix pre = Some (out1, ix1) \<Longrightarrow>
     vformat_scan F args ix (pre @ s) =
       map_option (\<lambda>(out, ix'). (out1 @ out, ix')) (vformat_scan F args ix1 s)"
proof (induction F args ix pre arbitrary: out1 ix1 rule: vformat_scan.induct)
  case (1 F args ix)
  then show ?case by (simp add: option.map_ident case_prod_unfold cong: option.map_cong)
next
  case (2 F args ix c r)
  note prem = "2.prems"
  show ?case
  proof (cases "c = CHR ''{''")
    case lb: True
    show ?thesis
    proof (cases "r \<noteq> [] \<and> hd r = CHR ''{''")
      case True
      then obtain o' where o': "vformat_scan F args ix (tl r) = Some (o', ix1)" "out1 = CHR ''{'' # o'"
        using prem lb by auto
      from True have app: "r @ s \<noteq> []" "hd (r @ s) = CHR ''{''" "tl (r @ s) = tl r @ s"
        by auto
      show ?thesis
        using "2.IH"(1)[OF lb True o'(1)] lb app o'(2)
        by (simp add: option.map_comp comp_def case_prod_unfold)
    next
      case False
      then obtain o1 ixa rest o' where
        f: "replacement_field F args ix r = Some (o1, ixa, rest)"
        and o': "vformat_scan F args ixa rest = Some (o', ix1)" "out1 = o1 @ o'"
        using prem lb by (auto split: option.splits)
      have "r \<noteq> []"
        using f by (auto simp: replacement_field_def parse_arg_id_def Let_def split: option.splits if_splits)
      with False have app: "hd (r @ s) \<noteq> CHR ''{''"
        by auto
      show ?thesis
        using "2.IH"(2)[OF lb False f refl refl o'(1)] lb app o'(2)
          replacement_field_append[OF f]
        by (simp add: option.map_comp comp_def case_prod_unfold)
    qed
  next
    case nlb: False
    show ?thesis
    proof (cases "c = CHR ''}''")
      case rb: True
      then have hr: "r \<noteq> [] \<and> hd r = CHR ''}''"
        using prem nlb by (auto split: if_splits)
      then obtain o' where o': "vformat_scan F args ix (tl r) = Some (o', ix1)" "out1 = CHR ''}'' # o'"
        using prem nlb rb by auto
      from hr have app: "r @ s \<noteq> []" "hd (r @ s) = CHR ''}''" "tl (r @ s) = tl r @ s"
        by auto
      show ?thesis
        using "2.IH"(3)[OF nlb rb hr o'(1)] nlb rb app o'(2)
        by (simp add: option.map_comp comp_def case_prod_unfold)
    next
      case nrb: False
      then obtain o' where o': "vformat_scan F args ix r = Some (o', ix1)" "out1 = c # o'"
        using prem nlb by auto
      show ?thesis
        using "2.IH"(4)[OF nlb nrb o'(1)] nlb nrb o'(2)
        by (simp add: option.map_comp comp_def case_prod_unfold)
    qed
  qed
qed


lemma digit_char_is_digit: "d < 10 \<Longrightarrow> is_digit (digit_char d)"
  by (simp add: is_digit_def digit_char_def del: set_simps)

lemma length_takeWhile_nth:
  "distinct xs \<Longrightarrow> d < length xs \<Longrightarrow> length (takeWhile (\<lambda>x. x \<noteq> xs ! d) xs) = d"
proof (induction xs arbitrary: d)
  case Nil
  then show ?case by simp
next
  case (Cons a xs)
  then show ?case by (cases d) auto
qed

lemma digit_value_digit_char: "d < 10 \<Longrightarrow> digit_value (digit_char d) = d"
  unfolding digit_value_def digit_char_def
  by (rule length_takeWhile_nth) simp_all

lemma digits10_is_digits: "\<forall>c\<in>set (digits10 n). is_digit c"
proof (induction n rule: digits10.induct)
  case (1 n)
  show ?case
  proof (cases "n < 10")
    case True
    then show ?thesis by (simp add: digits10.simps[of n] digit_char_is_digit)
  next
    case False
    with 1 show ?thesis by (simp add: digits10.simps[of n] digit_char_is_digit)
  qed
qed

lemma digits10_not_Nil: "digits10 n \<noteq> []"
  by (subst digits10.simps) simp

lemma parse_nat_snoc: "parse_nat (ds @ [c]) = 10 * parse_nat ds + digit_value c"
  by (simp add: parse_nat_def)

lemma parse_nat_digits10: "parse_nat (digits10 n) = n"
proof (induction n rule: digits10.induct)
  case (1 n)
  show ?case
  proof (cases "n < 10")
    case True
    then show ?thesis
      by (simp add: digits10.simps[of n] parse_nat_def digit_value_digit_char)
  next
    case False
    with 1 show ?thesis
      by (simp add: digits10.simps[of n] parse_nat_snoc digit_value_digit_char)
  qed
qed

lemma is_digit_not_brace: "is_digit c \<Longrightarrow> c \<noteq> CHR ''{'' \<and> c \<noteq> CHR ''}'' \<and> c \<noteq> CHR '':''"
  by (auto simp: is_digit_def)

lemma takeWhile_digits10: "\<not> is_digit c \<Longrightarrow> takeWhile is_digit (digits10 n @ c # post) = digits10 n"
  using digits10_is_digits[of n] by simp

lemma dropWhile_digits10: "\<not> is_digit c \<Longrightarrow> dropWhile is_digit (digits10 n @ c # post) = c # post"
  using digits10_is_digits[of n] by simp

lemma parse_arg_id_explicit:
  assumes "\<not> is_digit c"
  shows "parse_arg_id ix (digits10 n @ c # post) = None
       \<or> parse_arg_id ix (digits10 n @ c # post) = Some (n, Manual, c # post)"
proof -
  have "check_arg_id ix = None \<or> check_arg_id ix = Some Manual"
    by (cases ix) auto
  then show ?thesis
    using digits10_not_Nil[of n]
    by (auto simp: parse_arg_id_def Let_def takeWhile_digits10[OF assms]
        dropWhile_digits10[OF assms] parse_nat_digits10)
qed

lemma hd_digits10_not_brace: "hd (digits10 n @ s) \<noteq> CHR ''{''"
proof -
  have "hd (digits10 n) \<in> set (digits10 n)"
    using digits10_not_Nil by simp
  then have "is_digit (hd (digits10 n))"
    using digits10_is_digits by blast
  then show ?thesis
    using digits10_not_Nil[of n] is_digit_not_brace by (simp add: hd_append)
qed

lemma scan_missing_explicit_argument:
  assumes "length args \<le> n"
  shows "vformat_scan F args ix (CHR ''{'' # digits10 n @ CHR ''}'' # post) = None"
proof -
  have nd: "\<not> is_digit CHR ''}''" by (simp add: is_digit_def)
  have "replacement_field F args ix (digits10 n @ CHR ''}'' # post) = None"
    using parse_arg_id_explicit[OF nd, of ix n post] assms
    by (auto simp: replacement_field_def)
  then show ?thesis
    using hd_digits10_not_brace[of n "CHR ''}'' # post"] by simp
qed

lemma scan_missing_automatic_argument:
  assumes "next_arg_id ix = None \<or> (\<exists>k ix'. next_arg_id ix = Some (k, ix') \<and> length args \<le> k)"
  shows "vformat_scan F args ix (CHR ''{'' # CHR ''}'' # post) = None"
proof -
  have nd: "\<not> is_digit CHR ''}''" by (simp add: is_digit_def)
  have "replacement_field F args ix (CHR ''}'' # post) = None"
    using assms nd by (auto simp: replacement_field_def parse_arg_id_def)
  then show ?thesis by simp
qed

lemma spec_close_plain:
  "CHR ''{'' \<notin> set spec \<Longrightarrow> CHR ''}'' \<notin> set spec \<Longrightarrow>
     spec_close 0 (spec @ CHR ''}'' # post) = Some (length spec)"
  by (induction spec) auto

lemma scan_rejected_spec:
  assumes "spec \<noteq> []" "CHR ''{'' \<notin> set spec" "CHR ''}'' \<notin> set spec"
      and "F args Manual spec (args ! i) = None"
  shows "vformat_scan F args ix (CHR ''{'' # digits10 i @ CHR '':'' # spec @ CHR ''}'' # post) = None"
proof -
  have nd: "\<not> is_digit CHR '':''" by (simp add: is_digit_def)
  have "replacement_field F args ix (digits10 i @ CHR '':'' # spec @ CHR ''}'' # post) = None"
    using parse_arg_id_explicit[OF nd, of ix i "spec @ CHR ''}'' # post"] assms
    by (auto simp: replacement_field_def spec_close_plain)
  then show ?thesis
    using hd_digits10_not_brace[of i "CHR '':'' # spec @ CHR ''}'' # post"] by simp
qed

lemma vformat_Inl: "vformat F p_fmt p_args = Inl e \<Longrightarrow> e = format_error"
  by (auto simp: vformat_def split: option.splits)

lemma vformat_after_prefix:
  assumes "vformat_scan F args Unknown pre = Some (out1, ix1)"
      and "vformat_scan F args ix1 s = None"
  shows "vformat F (pre @ s) args = Inl format_error"
  using vformat_scan_append[OF assms(1), of s] assms(2) by (simp add: vformat_def)


section \<open>The finished line and the end of the call\<close>

lemma get_time_render: "get_time lg w = Some (spec_render (clock w) (m_time_format lg))"
  by (simp add: get_time_def format_time_render)

lemma log_line_Inr_level:
  "log_line F T_Level p_fmt p_args lg w = Some (Inr full) \<Longrightarrow> T_Level \<noteq> LOG_LEVEL_AMOUNT"
  by (auto simp: log_line_def get_time_render Let_def m_LOG_LABELS_def split: sum.splits)

lemma log_line_returns: "\<exists>r. log_line F T_Level p_fmt p_args lg w = Some r"
  by (simp add: log_line_def get_time_render Let_def split: sum.splits)

lemma log_rendered:
  assumes "\<not> level_value T_Level < level_value (m_threshold_level lg)"
      and "log_line F T_Level p_fmt p_args lg w = Some (Inr full)"
    shows "log F T_Level p_fmt p_args lg w =
       (if T_Level = ERROR \<and> m_abort_on_err lg then
          (case ask_continue (print_log full (level_value WARN \<le> level_value T_Level) w) of
             None \<Rightarrow> None
           | Some (continue, w2) \<Rightarrow> Some (if continue then Returned else Aborted, lg, w2))
        else Some (Returned, lg, print_log full (level_value WARN \<le> level_value T_Level) w))"
  using assms by (auto simp: log_def Let_def split: option.splits)

lemma level_in_table: "T_Level \<noteq> LOG_LEVEL_AMOUNT \<Longrightarrow> \<not> length m_LOG_LABELS \<le> level_value T_Level"
  by (cases T_Level) (simp_all add: m_LOG_LABELS_def)

lemma log_line_nested_error:
  assumes "T_Level \<noteq> LOG_LEVEL_AMOUNT" "vformat F (fmt p_fmt) p_args = Inl e"
  shows "log_line F T_Level p_fmt p_args lg w = Some (Inl (Thrown e))"
  using assms by (simp add: log_line_def get_time_render level_in_table)

lemma log_line_outer:
  assumes "T_Level \<noteq> LOG_LEVEL_AMOUNT" "get_time lg w = Some time"
      and "vformat F (fmt p_fmt) p_args = Inr msg"
      and "extract_function_name (src_function_name (source p_fmt)) = Inr fn"
  shows "log_line F T_Level p_fmt p_args lg w =
           (case format F (line_format lg)
                   [ArgString time,
                    ArgString (level_label lg T_Level), ArgString fn,
                    ArgString (src_file_name (source p_fmt)),
                    ArgString (digits10 (src_line (source p_fmt))), ArgString msg] of
              Inl e \<Rightarrow> Some (Inl (Thrown e))
            | Inr full \<Rightarrow> Some (Inr full))"
  using assms by (simp add: log_line_def level_in_table)

lemma log_line_bad_format:
  assumes lvl: "T_Level \<noteq> LOG_LEVEL_AMOUNT"
      and bad: "\<And>args. length args = 6 \<Longrightarrow> vformat F (line_format lg) args = Inl format_error"
  shows "log_line F T_Level p_fmt p_args lg w = Some (Inl (Thrown format_error))"
proof (cases "vformat F (fmt p_fmt) p_args")
  case (Inl e)
  with vformat_Inl[OF Inl] log_line_nested_error[OF lvl Inl] show ?thesis by simp
next
  case (Inr msg)
  obtain fn where fn: "extract_function_name (src_function_name (source p_fmt)) = Inr fn"
    using extract_function_name_never_throws by blast
  show ?thesis
    by (simp add: log_line_outer[OF lvl get_time_render Inr fn] format_def bad)
qed

lemma log_ended:
  assumes "\<not> level_value T_Level < level_value (m_threshold_level lg)"
      and "log_line F T_Level p_fmt p_args lg w = Some (Inl ended)"
    shows "log F T_Level p_fmt p_args lg w = Some (ended, lg, w)"
  using assms by (simp add: log_def)

text \<open>Evaluation of a logging call on concrete values.\<close>

lemmas line_eval =
  log_line_def get_time_render spec_render.simps vformat_def format_def replacement_field_def
  parse_arg_id_def parse_nat_def digit_value_def is_digit_def level_label_def line_format_def
  m_LOG_LABELS_def m_LOG_FORMATS_def new_Logger_def set_coloured_log_def set_log_format_def
  abort_on_error_def example_world_def example_source_def example_time_def
  extract_function_name_eq truncate_at_paren_def strip_through_first_space_def
  setw_setfill_def show_int_def digits10.simps digit_char_def Let_def NL_def ESC_def

lemma example_line_warn:
  "log_line no_spec WARN \<lparr>fmt = ''Test log format {}'', source = example_source\<rparr> [ArgInt 1]
      plain_logger example_world
    = Some (Inr (''[05:09.042 warn at main( test.cc:18 )]: Test log format 1'' @ [NL]))"
  by (simp add: line_eval plain_logger_def)

lemma example_line_info:
  "log_line no_spec INFO \<lparr>fmt = ''hi'', source = example_source\<rparr> []
      (set_log_format (''[{0}] {5}'' @ [NL]) plain_logger) example_world
    = Some (Inr (''[05:09.042] hi'' @ [NL]))"
  by (simp add: line_eval plain_logger_def)

lemma example_line_error:
  "log_line no_spec ERROR \<lparr>fmt = ''Test ERROR'', source = example_source\<rparr> [] plain_logger example_world
    = Some (Inr (''[05:09.042 error at main( test.cc:18 )]: Test ERROR'' @ [NL]))"
  by (simp add: line_eval plain_logger_def)

lemma example_line_error_no_abort:
  "log_line no_spec ERROR \<lparr>fmt = ''Test ERROR'', source = example_source\<rparr> []
      (abort_on_error False plain_logger) example_world
    = Some (Inr (''[05:09.042 error at main( test.cc:18 )]: Test ERROR'' @ [NL]))"
  by (simp add: line_eval plain_logger_def)

lemma example_line_coloured:
  "log_line no_spec WARN \<lparr>fmt = ''Test warn'', source = example_source\<rparr> []
      (new_Logger DEBUG) example_world
    = Some (Inr (''[05:09.042 '' @ ESC # ''[1;33mwarn'' @ ESC # ''[0;0;0m at '' @ ESC # ''[1mmain'' @
                 ESC # ''[0m( '' @ ESC # ''[1;30mtest.cc:18'' @ ESC # ''[0;0m )]: '' @
                 ESC # ''[1mTest warn'' @ ESC # ''[0m'' @ [NL]))"
  by (simp add: line_eval)

text \<open>
  Claim C8. For a call of \<^verbatim>\<open>log\<close> that passes the gate and whose line is rendered (\<open>full\<close>
  is the finished line): at DEBUG and INFO the call returns with the line appended to
  \<^verbatim>\<open>std::clog\<close> and \<^verbatim>\<open>std::cerr\<close> untouched; at WARN it returns with the line appended to
  \<^verbatim>\<open>std::cerr\<close> and \<^verbatim>\<open>std::clog\<close> untouched; at ERROR the line is appended to \<^verbatim>\<open>std::cerr\<close>
  before anything else happens (the escalation runs in the world that already holds it),
  so however the call ends, \<^verbatim>\<open>std::cerr\<close> starts with its old text followed by the line, and
  \<^verbatim>\<open>std::clog\<close> is untouched. A rendered line exists for these four levels only.
\<close>

theorem log_writes_line_to_stream_of_level:
  assumes "\<not> level_value T_Level < level_value (m_threshold_level lg)"
      and "log_line F T_Level p_fmt p_args lg w = Some (Inr full)"
  shows "(T_Level = DEBUG \<or> T_Level = INFO \<longrightarrow>
            log F T_Level p_fmt p_args lg w = Some (Returned, lg, w\<lparr>clog := clog w @ full\<rparr>))
       \<and> (T_Level = WARN \<longrightarrow>
            log F T_Level p_fmt p_args lg w = Some (Returned, lg, w\<lparr>cerr := cerr w @ full\<rparr>))
       \<and> (T_Level = ERROR \<longrightarrow>
            log F T_Level p_fmt p_args lg w =
              (if m_abort_on_err lg then
                 (case ask_continue (w\<lparr>cerr := cerr w @ full\<rparr>) of
                    None \<Rightarrow> None
                  | Some (continue, w2) \<Rightarrow> Some (if continue then Returned else Aborted, lg, w2))
               else Some (Returned, lg, w\<lparr>cerr := cerr w @ full\<rparr>))
          \<and> (\<forall>ended lg' w'. log F T_Level p_fmt p_args lg w = Some (ended, lg', w') \<longrightarrow>
                prefix (cerr w @ full) (cerr w') \<and> clog w' = clog w))
       \<and> (T_Level = DEBUG \<or> T_Level = INFO \<or> T_Level = WARN \<or> T_Level = ERROR)"
proof -
  note r = log_rendered[OF assms]
  have a: "T_Level = DEBUG \<or> T_Level = INFO \<longrightarrow>
            log F T_Level p_fmt p_args lg w = Some (Returned, lg, w\<lparr>clog := clog w @ full\<rparr>)"
    using r by (auto simp: print_log_def clog_write_def)
  have b: "T_Level = WARN \<longrightarrow>
            log F T_Level p_fmt p_args lg w = Some (Returned, lg, w\<lparr>cerr := cerr w @ full\<rparr>)"
    using r by (auto simp: print_log_def cerr_write_def)
  have c: "T_Level = ERROR \<longrightarrow>
            log F T_Level p_fmt p_args lg w =
              (if m_abort_on_err lg then
                 (case ask_continue (w\<lparr>cerr := cerr w @ full\<rparr>) of
                    None \<Rightarrow> None
                  | Some (continue, w2) \<Rightarrow> Some (if continue then Returned else Aborted, lg, w2))
               else Some (Returned, lg, w\<lparr>cerr := cerr w @ full\<rparr>))"
    using r by (auto simp: print_log_def cerr_write_def)
  have d: "T_Level = ERROR \<longrightarrow>
             (\<forall>ended lg' w'. log F T_Level p_fmt p_args lg w = Some (ended, lg', w') \<longrightarrow>
                prefix (cerr w @ full) (cerr w') \<and> clog w' = clog w)"
  proof (intro impI allI)
    fix ended lg' w'
    assume e: "T_Level = ERROR" and l: "log F T_Level p_fmt p_args lg w = Some (ended, lg', w')"
    show "prefix (cerr w @ full) (cerr w') \<and> clog w' = clog w"
    proof (cases "m_abort_on_err lg")
      case True
      with c e l obtain continue where
        "ask_continue (w\<lparr>cerr := cerr w @ full\<rparr>) = Some (continue, w')"
        by (auto split: option.splits)
      from ask_continue_streams[OF this] show ?thesis by simp
    next
      case False
      with c e l show ?thesis by auto
    qed
  qed
  have e: "T_Level = DEBUG \<or> T_Level = INFO \<or> T_Level = WARN \<or> T_Level = ERROR"
    using log_line_Inr_level[OF assms(2)] by (cases T_Level) auto
  from a b c d e show ?thesis by blast
qed

theorem log_writes_line_to_stream_of_level_witness:
  "log no_spec INFO \<lparr>fmt = ''hi'', source = example_source\<rparr> []
       (set_log_format (''[{0}] {5}'' @ [NL]) plain_logger) example_world
     = Some (Returned, set_log_format (''[{0}] {5}'' @ [NL]) plain_logger,
             example_world\<lparr>clog := ''[05:09.042] hi'' @ [NL]\<rparr>)
   \<and> log no_spec WARN \<lparr>fmt = ''Test log format {}'', source = example_source\<rparr> [ArgInt 1]
       plain_logger example_world
     = Some (Returned, plain_logger,
             example_world\<lparr>cerr := ''[05:09.042 warn at main( test.cc:18 )]: Test log format 1'' @ [NL]\<rparr>)
   \<and> log no_spec ERROR \<lparr>fmt = ''Test ERROR'', source = example_source\<rparr> []
       (abort_on_error False plain_logger) example_world
     = Some (Returned, abort_on_error False plain_logger,
             example_world\<lparr>cerr := ''[05:09.042 error at main( test.cc:18 )]: Test ERROR'' @ [NL]\<rparr>)"
proof -
  have g1: "\<not> level_value INFO < level_value (m_threshold_level (set_log_format (''[{0}] {5}'' @ [NL]) plain_logger))"
    by (simp add: plain_logger_def set_log_format_def set_coloured_log_def new_Logger_def)
  have g2: "\<not> level_value WARN < level_value (m_threshold_level plain_logger)"
    by (simp add: plain_logger_def set_coloured_log_def new_Logger_def)
  have g3: "\<not> level_value ERROR < level_value (m_threshold_level (abort_on_error False plain_logger))"
    by (simp add: plain_logger_def abort_on_error_def set_coloured_log_def new_Logger_def)
  have n: "\<not> m_abort_on_err (abort_on_error False plain_logger)"
    by (simp add: abort_on_error_def)
  have c: "cerr example_world = []" "clog example_world = []"
    by (simp_all add: example_world_def)
  from log_writes_line_to_stream_of_level[OF g1 example_line_info]
    log_writes_line_to_stream_of_level[OF g2 example_line_warn]
    log_writes_line_to_stream_of_level[OF g3 example_line_error_no_abort] n c
  show ?thesis by simp
qed

text \<open>
  Claim C3 as stated does not hold of every ERROR call with abort-on-error enabled: with
  standard input not a terminal (so that the prompt would answer false), a call whose
  message has a placeholder without an argument ends in \<^verbatim>\<open>std::format_error\<close> before the
  line is written and before the escalation; the process is not terminated, and with
  abort-on-error disabled the same call does not return normally either. And a logger
  whose threshold is the enumerator above ERROR gates the ERROR call out.
\<close>

theorem error_call_without_escalation:
  "m_abort_on_err (new_Logger WARN)
   \<and> ask_continue example_world = Some (False, example_world)
   \<and> log no_spec ERROR \<lparr>fmt = ''{}'', source = example_source\<rparr> [] (new_Logger WARN) example_world
       = Some (Thrown format_error, new_Logger WARN, example_world)
   \<and> log no_spec ERROR \<lparr>fmt = ''{}'', source = example_source\<rparr> []
         (abort_on_error False (new_Logger WARN)) example_world
       = Some (Thrown format_error, abort_on_error False (new_Logger WARN), example_world)
   \<and> m_abort_on_err (new_Logger LOG_LEVEL_AMOUNT)
   \<and> log no_spec ERROR \<lparr>fmt = ''x'', source = example_source\<rparr> []
         (new_Logger LOG_LEVEL_AMOUNT) example_world
       = Some (Returned, new_Logger LOG_LEVEL_AMOUNT, example_world)"
proof -
  have a: "ask_continue example_world = Some (False, example_world)"
    by (simp add: ask_continue_def is_stdin_available_def example_world_def)
  have b: "log_line no_spec ERROR \<lparr>fmt = ''{}'', source = example_source\<rparr> [] lg example_world
       = Some (Inl (Thrown format_error))" for lg
    by (simp add: log_line_nested_error vformat_def replacement_field_def parse_arg_id_def
        is_digit_def)
  show ?thesis
    by (simp add: a log_def b) (simp add: new_Logger_def abort_on_error_def)
qed

text \<open>
  Claim C3, amended. For a call of \<^verbatim>\<open>log\<close> at ERROR that passes the gate and whose line is
  rendered: with abort-on-error enabled the prompt is consulted in the world that holds
  the written line, and the call ends in \<^verbatim>\<open>std::abort\<close> whenever the prompt answers false
  (as it does at once when standard input is not a terminal) and returns when it answers
  true; with abort-on-error disabled the call returns normally, the line written. A call
  at any other level always ends, never in \<^verbatim>\<open>std::abort\<close>, leaves standard input as it
  was, and changes the world by at most the one write of its finished line.
\<close>

theorem error_escalation_after_rendered_line:
  "(\<not> level_value ERROR < level_value (m_threshold_level lg)
      \<and> log_line F ERROR p_fmt p_args lg w = Some (Inr full) \<longrightarrow>
      (m_abort_on_err lg \<longrightarrow>
         log F ERROR p_fmt p_args lg w =
           (case ask_continue (cerr_write full w) of
              None \<Rightarrow> None
            | Some (continue, w2) \<Rightarrow> Some (if continue then Returned else Aborted, lg, w2)))
      \<and> (m_abort_on_err lg \<and> ask_continue (cerr_write full w) = Some (False, w2) \<longrightarrow>
           log F ERROR p_fmt p_args lg w = Some (Aborted, lg, w2))
      \<and> (m_abort_on_err lg \<and> \<not> stdin_isatty w \<longrightarrow>
           log F ERROR p_fmt p_args lg w = Some (Aborted, lg, cerr_write full w))
      \<and> (\<not> m_abort_on_err lg \<longrightarrow>
           log F ERROR p_fmt p_args lg w = Some (Returned, lg, cerr_write full w)))
   \<and> (T_Level \<noteq> ERROR \<longrightarrow>
        (\<exists>ended w'. log F T_Level p_fmt p_args lg w = Some (ended, lg, w')
           \<and> ended \<noteq> Aborted
           \<and> cin_buf w' = cin_buf w \<and> cin_eofbit w' = cin_eofbit w \<and> cin_failbit w' = cin_failbit w
           \<and> (w' = w \<or> (\<exists>line. log_line F T_Level p_fmt p_args lg w = Some (Inr line)
                  \<and> w' = print_log line (level_value WARN \<le> level_value T_Level) w))))"
proof -
  have e: "log F ERROR p_fmt p_args lg w =
       (if m_abort_on_err lg then
          (case ask_continue (cerr_write full w) of
             None \<Rightarrow> None
           | Some (continue, w2) \<Rightarrow> Some (if continue then Returned else Aborted, lg, w2))
        else Some (Returned, lg, cerr_write full w))"
    if "\<not> level_value ERROR < level_value (m_threshold_level lg)"
      "log_line F ERROR p_fmt p_args lg w = Some (Inr full)"
    using log_rendered[OF that] by (simp add: print_log_def)
  have nt: "\<not> stdin_isatty w \<Longrightarrow> ask_continue (cerr_write full w) = Some (False, cerr_write full w)"
    by (simp add: ask_continue_def is_stdin_available_def cerr_write_def)
  have a: "\<not> level_value ERROR < level_value (m_threshold_level lg)
      \<and> log_line F ERROR p_fmt p_args lg w = Some (Inr full) \<longrightarrow>
      (m_abort_on_err lg \<longrightarrow>
         log F ERROR p_fmt p_args lg w =
           (case ask_continue (cerr_write full w) of
              None \<Rightarrow> None
            | Some (continue, w2) \<Rightarrow> Some (if continue then Returned else Aborted, lg, w2)))
      \<and> (m_abort_on_err lg \<and> ask_continue (cerr_write full w) = Some (False, w2) \<longrightarrow>
           log F ERROR p_fmt p_args lg w = Some (Aborted, lg, w2))
      \<and> (m_abort_on_err lg \<and> \<not> stdin_isatty w \<longrightarrow>
           log F ERROR p_fmt p_args lg w = Some (Aborted, lg, cerr_write full w))
      \<and> (\<not> m_abort_on_err lg \<longrightarrow>
           log F ERROR p_fmt p_args lg w = Some (Returned, lg, cerr_write full w))"
    using e nt by auto
  have b: "T_Level \<noteq> ERROR \<longrightarrow>
        (\<exists>ended w'. log F T_Level p_fmt p_args lg w = Some (ended, lg, w')
           \<and> ended \<noteq> Aborted
           \<and> cin_buf w' = cin_buf w \<and> cin_eofbit w' = cin_eofbit w \<and> cin_failbit w' = cin_failbit w
           \<and> (w' = w \<or> (\<exists>line. log_line F T_Level p_fmt p_args lg w = Some (Inr line)
                  \<and> w' = print_log line (level_value WARN \<le> level_value T_Level) w)))"
  proof
    assume ne: "T_Level \<noteq> ERROR"
    obtain r where r: "log_line F T_Level p_fmt p_args lg w = Some r"
      using log_line_returns by blast
    show "\<exists>ended w'. log F T_Level p_fmt p_args lg w = Some (ended, lg, w')
           \<and> ended \<noteq> Aborted
           \<and> cin_buf w' = cin_buf w \<and> cin_eofbit w' = cin_eofbit w \<and> cin_failbit w' = cin_failbit w
           \<and> (w' = w \<or> (\<exists>line. log_line F T_Level p_fmt p_args lg w = Some (Inr line)
                  \<and> w' = print_log line (level_value WARN \<le> level_value T_Level) w))"
    proof (cases "level_value T_Level < level_value (m_threshold_level lg)")
      case True
      then show ?thesis by (simp add: log_def)
    next
      case gate: False
      show ?thesis
      proof (cases r)
        case (Inl ended)
        then have "ended \<noteq> Aborted"
          using r by (auto simp: log_line_def get_time_render Let_def split: sum.splits if_splits)
        with gate r Inl show ?thesis by (simp add: log_def)
      next
        case (Inr line)
        with gate r ne show ?thesis
          by (simp add: log_def Let_def print_log_def cerr_write_def clog_write_def)
      qed
    qed
  qed
  from a b show ?thesis by blast
qed

theorem error_escalation_after_rendered_line_witness:
  "log no_spec ERROR \<lparr>fmt = ''Test ERROR'', source = example_source\<rparr> [] plain_logger example_world
     = Some (Aborted, plain_logger,
             example_world\<lparr>cerr := ''[05:09.042 error at main( test.cc:18 )]: Test ERROR'' @ [NL]\<rparr>)
   \<and> log no_spec ERROR \<lparr>fmt = ''Test ERROR'', source = example_source\<rparr> []
         (abort_on_error False plain_logger) example_world
     = Some (Returned, abort_on_error False plain_logger,
             example_world\<lparr>cerr := ''[05:09.042 error at main( test.cc:18 )]: Test ERROR'' @ [NL]\<rparr>)
   \<and> (\<exists>ended w'. log no_spec WARN \<lparr>fmt = ''Test warn'', source = example_source\<rparr> []
                      plain_logger example_world = Some (ended, plain_logger, w')
          \<and> ended \<noteq> Aborted \<and> cin_buf w' = cin_buf example_world)"
proof -
  have g1: "\<not> level_value ERROR < level_value (m_threshold_level plain_logger)"
    by (simp add: plain_logger_def set_coloured_log_def new_Logger_def)
  have g2: "\<not> level_value ERROR < level_value (m_threshold_level (abort_on_error False plain_logger))"
    by (simp add: plain_logger_def abort_on_error_def set_coloured_log_def new_Logger_def)
  have ab: "m_abort_on_err plain_logger" "\<not> m_abort_on_err (abort_on_error False plain_logger)"
    by (simp_all add: plain_logger_def abort_on_error_def set_coloured_log_def new_Logger_def)
  have tty: "\<not> stdin_isatty example_world" "cerr example_world = []"
    by (simp_all add: example_world_def)
  let ?line = "''[05:09.042 error at main( test.cc:18 )]: Test ERROR'' @ [NL]"
  have t1: "log no_spec ERROR \<lparr>fmt = ''Test ERROR'', source = example_source\<rparr> [] plain_logger example_world
              = Some (Aborted, plain_logger, cerr_write ?line example_world)"
    using error_escalation_after_rendered_line
         [where F = no_spec and lg = plain_logger and w = example_world and p_args = "[]"
            and p_fmt = "\<lparr>fmt = ''Test ERROR'', source = example_source\<rparr>"
            and full = ?line and T_Level = WARN]
       g1 ab(1) tty(1) example_line_error
    by blast
  have t2: "log no_spec ERROR \<lparr>fmt = ''Test ERROR'', source = example_source\<rparr> []
              (abort_on_error False plain_logger) example_world
              = Some (Returned, abort_on_error False plain_logger, cerr_write ?line example_world)"
    using error_escalation_after_rendered_line
         [where F = no_spec and lg = "abort_on_error False plain_logger" and w = example_world
            and p_args = "[]" and p_fmt = "\<lparr>fmt = ''Test ERROR'', source = example_source\<rparr>"
            and full = ?line and T_Level = WARN]
       g2 ab(2) example_line_error_no_abort
    by blast
  have t3: "\<exists>ended w'. log no_spec WARN \<lparr>fmt = ''Test warn'', source = example_source\<rparr> []
                      plain_logger example_world = Some (ended, plain_logger, w')
          \<and> ended \<noteq> Aborted \<and> cin_buf w' = cin_buf example_world"
    using error_escalation_after_rendered_line
         [where F = no_spec and lg = plain_logger and w = example_world and p_args = "[]"
            and p_fmt = "\<lparr>fmt = ''Test warn'', source = example_source\<rparr>" and T_Level = WARN]
    by blast
  from t1 t2 t3 tty(2) show ?thesis
    by (simp add: cerr_write_def)
qed

text \<open>
  Claim C7. For a call of \<^verbatim>\<open>log\<close> at one of the four severities that passes the gate: an
  exception of the nested
  substitution (the user's message) or of the outer one (the line format) leaves \<^verbatim>\<open>log\<close>
  as it was thrown, with nothing written, no escalation, and the logger as before. And
  \<^verbatim>\<open>std::format_error\<close> is thrown in these cases: the line format has a placeholder with
  an index of 6 or more; the user's format string has a placeholder with an explicit index
  that is not below the number of arguments, or an automatically numbered placeholder
  after the arguments are used up; a placeholder of either format string carries a
  format-spec that the formatter of its argument rejects (a spec that does not fit the
  argument's type). The text before the offending placeholder is well-formed in each
  case. An argument that no placeholder names is not a mismatch: \<^verbatim>\<open>std::vformat\<close> ignores
  it, as the six fields of a line format that names fewer show.
\<close>

theorem format_errors_propagate:
  assumes gate: "\<not> level_value T_Level < level_value (m_threshold_level lg)"
      and lvl: "T_Level \<noteq> LOG_LEVEL_AMOUNT"
  shows
    "(vformat F (fmt p_fmt) p_args = Inl e \<longrightarrow>
        log F T_Level p_fmt p_args lg w = Some (Thrown e, lg, w))
   \<and> (get_time lg w = Some time
        \<and> vformat F (fmt p_fmt) p_args = Inr msg
        \<and> extract_function_name (src_function_name (source p_fmt)) = Inr fn
        \<and> format F (line_format lg)
             [ArgString time, ArgString (level_label lg T_Level),
              ArgString fn, ArgString (src_file_name (source p_fmt)),
              ArgString (digits10 (src_line (source p_fmt))), ArgString msg] = Inl e \<longrightarrow>
        log F T_Level p_fmt p_args lg w = Some (Thrown e, lg, w))
   \<and> (m_log_format lg = pre @ CHR ''{'' # digits10 n @ CHR ''}'' # post \<and> 6 \<le> n
        \<and> (\<forall>args. length args = 6 \<longrightarrow> vformat_scan F args Unknown pre \<noteq> None) \<longrightarrow>
        log F T_Level p_fmt p_args lg w = Some (Thrown format_error, lg, w))
   \<and> (fmt p_fmt = pre @ CHR ''{'' # digits10 n @ CHR ''}'' # post \<and> length p_args \<le> n
        \<and> vformat_scan F p_args Unknown pre \<noteq> None \<longrightarrow>
        log F T_Level p_fmt p_args lg w = Some (Thrown format_error, lg, w))
   \<and> (fmt p_fmt = pre @ CHR ''{'' # CHR ''}'' # post
        \<and> vformat_scan F p_args Unknown pre = Some (out, ix)
        \<and> (\<forall>k ix'. next_arg_id ix = Some (k, ix') \<longrightarrow> length p_args \<le> k) \<longrightarrow>
        log F T_Level p_fmt p_args lg w = Some (Thrown format_error, lg, w))
   \<and> (fmt p_fmt = pre @ CHR ''{'' # digits10 i @ CHR '':'' # spec @ CHR ''}'' # post
        \<and> vformat_scan F p_args Unknown pre \<noteq> None
        \<and> spec \<noteq> [] \<and> CHR ''{'' \<notin> set spec \<and> CHR ''}'' \<notin> set spec
        \<and> F p_args Manual spec (p_args ! i) = None \<longrightarrow>
        log F T_Level p_fmt p_args lg w = Some (Thrown format_error, lg, w))
   \<and> (m_log_format lg = pre @ CHR ''{'' # digits10 i @ CHR '':'' # spec @ CHR ''}'' # post
        \<and> (\<forall>args. length args = 6 \<longrightarrow>
              vformat_scan F args Unknown pre \<noteq> None \<and> F args Manual spec (args ! i) = None)
        \<and> spec \<noteq> [] \<and> CHR ''{'' \<notin> set spec \<and> CHR ''}'' \<notin> set spec \<longrightarrow>
        log F T_Level p_fmt p_args lg w = Some (Thrown format_error, lg, w))"
proof -
  have p1: "vformat F (fmt p_fmt) p_args = Inl e \<longrightarrow>
        log F T_Level p_fmt p_args lg w = Some (Thrown e, lg, w)" for e
    using log_ended[OF gate log_line_nested_error[OF lvl]] by blast
  have p2: "get_time lg w = Some time
        \<and> vformat F (fmt p_fmt) p_args = Inr msg
        \<and> extract_function_name (src_function_name (source p_fmt)) = Inr fn
        \<and> format F (line_format lg)
             [ArgString time, ArgString (level_label lg T_Level),
              ArgString fn, ArgString (src_file_name (source p_fmt)),
              ArgString (digits10 (src_line (source p_fmt))), ArgString msg] = Inl e \<longrightarrow>
        log F T_Level p_fmt p_args lg w = Some (Thrown e, lg, w)"
  proof (intro impI, elim conjE)
    assume a: "get_time lg w = Some time" "vformat F (fmt p_fmt) p_args = Inr msg"
      "extract_function_name (src_function_name (source p_fmt)) = Inr fn"
      and b: "format F (line_format lg)
             [ArgString time, ArgString (level_label lg T_Level),
              ArgString fn, ArgString (src_file_name (source p_fmt)),
              ArgString (digits10 (src_line (source p_fmt))), ArgString msg] = Inl e"
    have "log_line F T_Level p_fmt p_args lg w = Some (Inl (Thrown e))"
      by (simp add: log_line_outer[OF lvl a] b)
    from log_ended[OF gate this] show "log F T_Level p_fmt p_args lg w = Some (Thrown e, lg, w)" .
  qed
  have outer: "log F T_Level p_fmt p_args lg w = Some (Thrown format_error, lg, w)"
    if fm: "m_log_format lg = pre @ s" "s \<noteq> []"
      and sc: "\<And>args. length args = 6 \<Longrightarrow>
                 vformat_scan F args Unknown pre \<noteq> None \<and>
                 (\<forall>ix1. vformat_scan F args ix1 s = None)" for pre s
  proof -
    have lf: "line_format lg = pre @ s"
      using fm by (simp add: line_format_def)
    have "vformat F (line_format lg) args = Inl format_error" if "length args = 6" for args
    proof -
      from sc[OF that] obtain out1 ix1 where "vformat_scan F args Unknown pre = Some (out1, ix1)"
        by auto
      moreover from sc[OF that] have "vformat_scan F args ix1 s = None" by blast
      ultimately show ?thesis
        unfolding lf by (rule vformat_after_prefix)
    qed
    from log_ended[OF gate log_line_bad_format[OF lvl this]] show ?thesis by simp
  qed
  have nested: "log F T_Level p_fmt p_args lg w = Some (Thrown format_error, lg, w)"
    if fm: "fmt p_fmt = pre @ s"
      and sc: "vformat_scan F p_args Unknown pre = Some (out1, ix1)"
        "vformat_scan F p_args ix1 s = None" for pre s out1 ix1
  proof -
    have "vformat F (fmt p_fmt) p_args = Inl format_error"
      unfolding fm using sc by (rule vformat_after_prefix)
    with p1 show ?thesis by blast
  qed
  have p3: "m_log_format lg = pre @ CHR ''{'' # digits10 n @ CHR ''}'' # post \<and> 6 \<le> n
        \<and> (\<forall>args. length args = 6 \<longrightarrow> vformat_scan F args Unknown pre \<noteq> None) \<longrightarrow>
        log F T_Level p_fmt p_args lg w = Some (Thrown format_error, lg, w)"
  proof (intro impI, elim conjE)
    assume a: "m_log_format lg = pre @ CHR ''{'' # digits10 n @ CHR ''}'' # post" "6 \<le> n"
      and b: "\<forall>args. length args = 6 \<longrightarrow> vformat_scan F args Unknown pre \<noteq> None"
    show "log F T_Level p_fmt p_args lg w = Some (Thrown format_error, lg, w)"
    proof (rule outer[OF a(1)])
      fix args :: "fmt_arg list"
      assume "length args = 6"
      with a(2) b scan_missing_explicit_argument[of args n F _ post]
      show "vformat_scan F args Unknown pre \<noteq> None \<and>
            (\<forall>ix1. vformat_scan F args ix1 (CHR ''{'' # digits10 n @ CHR ''}'' # post) = None)"
        by (simp del: vformat_scan.simps)
    qed simp
  qed
  have p4: "fmt p_fmt = pre @ CHR ''{'' # digits10 n @ CHR ''}'' # post \<and> length p_args \<le> n
        \<and> vformat_scan F p_args Unknown pre \<noteq> None \<longrightarrow>
        log F T_Level p_fmt p_args lg w = Some (Thrown format_error, lg, w)"
    using nested[of pre "CHR ''{'' # digits10 n @ CHR ''}'' # post"]
      scan_missing_explicit_argument[of p_args n F _ post]
    by (auto simp del: vformat_scan.simps)
  have p5: "fmt p_fmt = pre @ CHR ''{'' # CHR ''}'' # post
        \<and> vformat_scan F p_args Unknown pre = Some (out, ix)
        \<and> (\<forall>k ix'. next_arg_id ix = Some (k, ix') \<longrightarrow> length p_args \<le> k) \<longrightarrow>
        log F T_Level p_fmt p_args lg w = Some (Thrown format_error, lg, w)"
  proof (intro impI, elim conjE)
    assume a: "fmt p_fmt = pre @ CHR ''{'' # CHR ''}'' # post"
      "vformat_scan F p_args Unknown pre = Some (out, ix)"
      and b: "\<forall>k ix'. next_arg_id ix = Some (k, ix') \<longrightarrow> length p_args \<le> k"
    have "next_arg_id ix = None \<or> (\<exists>k ix'. next_arg_id ix = Some (k, ix') \<and> length p_args \<le> k)"
      using b by (cases "next_arg_id ix") auto
    from nested[OF a scan_missing_automatic_argument[OF this]]
    show "log F T_Level p_fmt p_args lg w = Some (Thrown format_error, lg, w)" .
  qed
  have p6: "fmt p_fmt = pre @ CHR ''{'' # digits10 i @ CHR '':'' # spec @ CHR ''}'' # post
        \<and> vformat_scan F p_args Unknown pre \<noteq> None
        \<and> spec \<noteq> [] \<and> CHR ''{'' \<notin> set spec \<and> CHR ''}'' \<notin> set spec
        \<and> F p_args Manual spec (p_args ! i) = None \<longrightarrow>
        log F T_Level p_fmt p_args lg w = Some (Thrown format_error, lg, w)"
    using nested[of pre "CHR ''{'' # digits10 i @ CHR '':'' # spec @ CHR ''}'' # post"]
      scan_rejected_spec[of spec F p_args i _ post]
    by (auto simp del: vformat_scan.simps)
  have p7: "m_log_format lg = pre @ CHR ''{'' # digits10 i @ CHR '':'' # spec @ CHR ''}'' # post
        \<and> (\<forall>args. length args = 6 \<longrightarrow>
              vformat_scan F args Unknown pre \<noteq> None \<and> F args Manual spec (args ! i) = None)
        \<and> spec \<noteq> [] \<and> CHR ''{'' \<notin> set spec \<and> CHR ''}'' \<notin> set spec \<longrightarrow>
        log F T_Level p_fmt p_args lg w = Some (Thrown format_error, lg, w)"
  proof (intro impI, elim conjE)
    assume a: "m_log_format lg = pre @ CHR ''{'' # digits10 i @ CHR '':'' # spec @ CHR ''}'' # post"
      and b: "\<forall>args. length args = 6 \<longrightarrow>
              vformat_scan F args Unknown pre \<noteq> None \<and> F args Manual spec (args ! i) = None"
      and c: "spec \<noteq> []" "CHR ''{'' \<notin> set spec" "CHR ''}'' \<notin> set spec"
    show "log F T_Level p_fmt p_args lg w = Some (Thrown format_error, lg, w)"
    proof (rule outer[OF a])
      fix args :: "fmt_arg list"
      assume "length args = 6"
      with b have "vformat_scan F args Unknown pre \<noteq> None" "F args Manual spec (args ! i) = None"
        by blast+
      with scan_rejected_spec[of spec F args i _ post] c
      show "vformat_scan F args Unknown pre \<noteq> None \<and>
            (\<forall>ix1. vformat_scan F args ix1
               (CHR ''{'' # digits10 i @ CHR '':'' # spec @ CHR ''}'' # post) = None)"
        by (simp del: vformat_scan.simps)
    qed simp
  qed
  from p1 p2 p3 p4 p5 p6 p7 show ?thesis by blast
qed


lemmas scan_eval = vformat_def replacement_field_def parse_arg_id_def parse_nat_def
  digit_value_def is_digit_def digits10.simps digit_char_def no_spec_def

theorem format_errors_propagate_witness:
  "log no_spec WARN \<lparr>fmt = ''{}'', source = example_source\<rparr> [] plain_logger example_world
     = Some (Thrown format_error, plain_logger, example_world)
   \<and> log no_spec WARN \<lparr>fmt = ''hi'', source = example_source\<rparr> [] bad_index_logger example_world
     = Some (Thrown format_error, bad_index_logger, example_world)
   \<and> log no_spec WARN \<lparr>fmt = ''a{0}b{1}'', source = example_source\<rparr> [ArgInt 1] plain_logger example_world
     = Some (Thrown format_error, plain_logger, example_world)
   \<and> log no_spec WARN \<lparr>fmt = ''{} {}'', source = example_source\<rparr> [ArgInt 1] plain_logger example_world
     = Some (Thrown format_error, plain_logger, example_world)
   \<and> log no_spec WARN \<lparr>fmt = ''{0:d}'', source = example_source\<rparr> [ArgString ''s''] plain_logger example_world
     = Some (Thrown format_error, plain_logger, example_world)
   \<and> log no_spec WARN \<lparr>fmt = ''hi'', source = example_source\<rparr> [] bad_spec_logger example_world
     = Some (Thrown format_error, bad_spec_logger, example_world)
   \<and> log no_spec WARN \<lparr>fmt = ''hi'', source = example_source\<rparr> [] unmatched_brace_logger example_world
     = Some (Thrown format_error, unmatched_brace_logger, example_world)"
proof -
  have lvl: "WARN \<noteq> LOG_LEVEL_AMOUNT" by simp
  have g: "\<not> level_value WARN < level_value (m_threshold_level plain_logger)"
    "\<not> level_value WARN < level_value (m_threshold_level bad_index_logger)"
    "\<not> level_value WARN < level_value (m_threshold_level bad_spec_logger)"
    "\<not> level_value WARN < level_value (m_threshold_level unmatched_brace_logger)"
    by (simp_all add: plain_logger_def bad_index_logger_def bad_spec_logger_def
        unmatched_brace_logger_def set_log_format_def set_coloured_log_def new_Logger_def)
  have c1: "log no_spec WARN \<lparr>fmt = ''{}'', source = example_source\<rparr> [] plain_logger example_world
     = Some (Thrown format_error, plain_logger, example_world)"
    using format_errors_propagate[OF g(1) lvl, where F = no_spec and w = example_world
        and p_fmt = "\<lparr>fmt = ''{}'', source = example_source\<rparr>" and p_args = "[]"
        and e = format_error and time = "[]" and msg = "[]" and fn = "[]" and pre = "[]" and n = 0 and post = "[]"
        and out = "[]" and ix = Unknown and i = 0 and spec = "[]"]
    by (simp add: scan_eval)
  have c2: "log no_spec WARN \<lparr>fmt = ''hi'', source = example_source\<rparr> [] bad_index_logger example_world
     = Some (Thrown format_error, bad_index_logger, example_world)"
    using format_errors_propagate[OF g(2) lvl, where F = no_spec and w = example_world
        and p_fmt = "\<lparr>fmt = ''hi'', source = example_source\<rparr>" and p_args = "[]"
        and e = format_error and time = "[]" and msg = "[]" and fn = "[]" and pre = "''[{0}] ''" and n = 6 and post = "[NL]"
        and out = "[]" and ix = Unknown and i = 0 and spec = "[]"]
    by (simp add: scan_eval bad_index_logger_def set_log_format_def)
  have c3: "log no_spec WARN \<lparr>fmt = ''a{0}b{1}'', source = example_source\<rparr> [ArgInt 1] plain_logger example_world
     = Some (Thrown format_error, plain_logger, example_world)"
    using format_errors_propagate[OF g(1) lvl, where F = no_spec and w = example_world
        and p_fmt = "\<lparr>fmt = ''a{0}b{1}'', source = example_source\<rparr>" and p_args = "[ArgInt 1]"
        and e = format_error and time = "[]" and msg = "[]" and fn = "[]" and pre = "''a{0}b''" and n = 1 and post = "[]"
        and out = "[]" and ix = Unknown and i = 0 and spec = "[]"]
    by (simp add: scan_eval)
  have c4: "log no_spec WARN \<lparr>fmt = ''{} {}'', source = example_source\<rparr> [ArgInt 1] plain_logger example_world
     = Some (Thrown format_error, plain_logger, example_world)"
    using format_errors_propagate[OF g(1) lvl, where F = no_spec and w = example_world
        and p_fmt = "\<lparr>fmt = ''{} {}'', source = example_source\<rparr>" and p_args = "[ArgInt 1]"
        and e = format_error and time = "[]" and msg = "[]" and fn = "[]" and pre = "''{} ''" and n = 1 and post = "[]"
        and out = "''1 ''" and ix = "Automatic 1" and i = 0 and spec = "[]"]
    by (simp add: scan_eval show_int_def)
  have c5: "log no_spec WARN \<lparr>fmt = ''{0:d}'', source = example_source\<rparr> [ArgString ''s''] plain_logger example_world
     = Some (Thrown format_error, plain_logger, example_world)"
    using format_errors_propagate[OF g(1) lvl, where F = no_spec and w = example_world
        and p_fmt = "\<lparr>fmt = ''{0:d}'', source = example_source\<rparr>" and p_args = "[ArgString ''s'']"
        and e = format_error and time = "[]" and msg = "[]" and fn = "[]" and pre = "[]" and n = 1 and post = "[]"
        and out = "[]" and ix = Unknown and i = 0 and spec = "''d''"]
    by (simp add: scan_eval)
  have c6: "log no_spec WARN \<lparr>fmt = ''hi'', source = example_source\<rparr> [] bad_spec_logger example_world
     = Some (Thrown format_error, bad_spec_logger, example_world)"
    using format_errors_propagate[OF g(3) lvl, where F = no_spec and w = example_world
        and p_fmt = "\<lparr>fmt = ''hi'', source = example_source\<rparr>" and p_args = "[]"
        and e = format_error and time = "[]" and msg = "[]" and fn = "[]" and pre = "[]" and n = 6 and post = "[NL]"
        and out = "[]" and ix = Unknown and i = 5 and spec = "''x''"]
    by (simp add: scan_eval bad_spec_logger_def set_log_format_def)
  have c7: "log no_spec WARN \<lparr>fmt = ''hi'', source = example_source\<rparr> [] unmatched_brace_logger example_world
     = Some (Thrown format_error, unmatched_brace_logger, example_world)"
    using format_errors_propagate[OF g(4) lvl, where F = no_spec and w = example_world
        and p_fmt = "\<lparr>fmt = ''hi'', source = example_source\<rparr>" and p_args = "[]"
        and e = format_error and time = "''05:09.042''" and msg = "''hi''" and fn = "''main''"
        and pre = "[]" and n = 6 and post = "[]" and out = "[]" and ix = Unknown and i = 5
        and spec = "''x''"]
    by (simp add: line_eval no_spec_def unmatched_brace_logger_def plain_logger_def)
  from c1 c2 c3 c4 c5 c6 c7 show ?thesis by blast
qed


end
